theory Spec2Isabelle
  imports Complex_Main "HOL-Library.AList"
begin

section \<open>Data model\<close>

text \<open>
  The file under verification is \<^verbatim>\<open>rastervision/backend/torch_utils/model.py\<close>:
  \<^verbatim>\<open>get_out_channels\<close>, \<^verbatim>\<open>resnet_fpn_backbone\<close> and the adapter class
  \<^verbatim>\<open>MyFasterRCNN\<close> with its \<^verbatim>\<open>forward\<close> method.

  Every exception the code can raise is a value of \<open>error\<close>; a function that can
  raise returns \<open>error + 'a\<close> with \<open>Inl\<close> for the exception.
\<close>

datatype error =
    KeyError string
  | TypeError
  | ValueError
  | IndexError
  | AttributeError
  | DetectorError string

text \<open>
  A tensor is its shape and its elements in row-major order. An element is the real
  number its floating-point value stands for. Where the code under verification makes a
  float32 number, by converting an integer or by adding two numbers, the rounding is
  written out below.
\<close>

record tensor =
  shape :: "nat list"
  elems :: "nat \<Rightarrow> real"

text \<open>
  Iterating over a tensor (\<^verbatim>\<open>for x in input\<close>, \<^verbatim>\<open>zip(input, ...)\<close>) yields its slices
  along the first dimension; a 0-dimensional tensor cannot be iterated.
\<close>

definition iter_tensor :: "tensor \<Rightarrow> error + tensor list" where
  "iter_tensor t =
     (case shape t of
        [] \<Rightarrow> Inl TypeError
      | n # rest \<Rightarrow>
          Inr (map (\<lambda>i. \<lparr>shape = rest, elems = (\<lambda>k. elems t (i * prod_list rest + k))\<rparr>)
                 [0..<n]))"

subsection \<open>float32 numbers\<close>

text \<open>
  Rounding a natural number to \<open>p\<close> significant bits, to the nearest representable
  number and to the even one of two equally near: \<open>excess_bits p m\<close> is the number of
  low bits that \<open>m\<close> has beyond \<open>p\<close>. A float32 number has 24 significant bits, a double
  has 53. Overflow to infinity is not reached by the numbers of this development.
\<close>

function excess_bits :: "nat \<Rightarrow> nat \<Rightarrow> nat" where
  "excess_bits p m = (if m < 2 ^ p then 0 else Suc (excess_bits p (m div 2)))"
  by pat_completeness auto
termination
proof (relation "measure snd")
  show "wf (measure snd)" by simp
next
  fix p m :: nat
  assume "\<not> m < 2 ^ p"
  then have "0 < m" by (cases m) auto
  then show "((p, m div 2), (p, m)) \<in> measure snd" by simp
qed

declare excess_bits.simps [simp del]

definition round_to :: "nat \<Rightarrow> nat \<Rightarrow> nat" where
  "round_to p m =
     (let e = excess_bits p m; q = m div 2 ^ e; r = m mod 2 ^ e
      in if 2 ^ e < 2 * r \<or> (2 * r = 2 ^ e \<and> odd q) then (q + 1) * 2 ^ e else q * 2 ^ e)"

text \<open>
  A Python integer that \<^verbatim>\<open>torch.tensor\<close> stores in a float32 tensor is converted to a
  double first and to float32 from there.
\<close>

definition f32_of_nat :: "nat \<Rightarrow> nat" where
  "f32_of_nat m = round_to 24 (round_to 53 m)"

text \<open>
  The loss values are float32 scalars. For an integer \<open>n\<close> of at most 24 significant
  bits, \<open>F32 n\<close> is the float32 number \<open>n\<close> times a fixed power of two, the unit; such
  numbers are closed under float32 addition, which is the exact sum rounded to 24
  significant bits, to the nearest number and to the even one of two equally near. Python's
  \<^verbatim>\<open>sum\<close> starts from the integer 0, and \<^verbatim>\<open>0 + v\<close> is \<open>v\<close>. The properties of
  \<^verbatim>\<open>forward\<close> below are stated for any type of loss values with a zero and an addition,
  of which this is one.
\<close>

datatype f32 = F32 int

fun units :: "f32 \<Rightarrow> int" where
  "units (F32 n) = n"

definition round_f32 :: "int \<Rightarrow> int" where
  "round_f32 n = (if n < 0 then - int (round_to 24 (nat (- n))) else int (round_to 24 (nat n)))"

instantiation f32 :: "{zero,plus}"
begin

definition zero_f32 :: f32 where
  "zero_f32 = F32 0"

definition plus_f32 :: "f32 \<Rightarrow> f32 \<Rightarrow> f32" where
  "plus_f32 a b = F32 (round_f32 (units a + units b))"

instance ..

end

subsection \<open>BoxList\<close>

text \<open>
  The class \<^verbatim>\<open>BoxList\<close> lives in \<^verbatim>\<open>rastervision/backend/torch_utils/boxlist.py\<close>,
  which is not among the sources. A box is a row of four coordinates; the fields of a
  BoxList are the label array and the optional score array.
\<close>

type_synonym box = "real \<times> real \<times> real \<times> real"

record boxlist =
  boxes :: "box list"
  labels :: "int list"
  scores :: "real list option"

text \<open>
  Modelled from the spec: the constructor \<^verbatim>\<open>BoxList(boxes, labels=..., scores=...)\<close>
  (construct-with(boxes, labels, scores?)); the boxlist module is missing from the sources.
\<close>

definition BoxList :: "box list \<Rightarrow> int list \<Rightarrow> real list option \<Rightarrow> boxlist" where
  "BoxList bs ls ss = \<lparr>boxes = bs, labels = ls, scores = ss\<rparr>"

text \<open>
  Modelled from the spec: \<^verbatim>\<open>bl.get_field('labels')\<close> (get-field(name) gives the array);
  the boxlist module is missing from the sources.
\<close>

definition get_field_labels :: "boxlist \<Rightarrow> int list" where
  "get_field_labels bl = labels bl"

text \<open>
  Modelled from the spec: the two orderings of a box's coordinates are
  min-row/min-col/max-row/max-col (the harness) and min-col/min-row/max-col/max-row (the
  detector); \<^verbatim>\<open>xyxy()\<close> converts a BoxList of the first into the second and \<^verbatim>\<open>yxyx()\<close>
  one of the second into the first, each giving a new BoxList with the same fields. The
  boxlist module is missing from the sources.
\<close>

definition swap_order :: "box \<Rightarrow> box" where
  "swap_order b = (case b of (a0, a1, a2, a3) \<Rightarrow> (a1, a0, a3, a2))"

definition xyxy :: "boxlist \<Rightarrow> boxlist" where
  "xyxy bl = BoxList (map swap_order (boxes bl)) (labels bl) (scores bl)"

definition yxyx :: "boxlist \<Rightarrow> boxlist" where
  "yxyx bl = BoxList (map swap_order (boxes bl)) (labels bl) (scores bl)"

text \<open>
  Modelled from the spec: filter-by-mask(BoxList, boolean mask) gives a new BoxList
  with the same field names and the rows the mask keeps, in their order. The boxlist
  module is missing from the sources.
\<close>

definition mask_select :: "'a list \<Rightarrow> bool list \<Rightarrow> 'a list" where
  "mask_select xs inds = map fst (filter snd (zip xs inds))"

definition ind_filter :: "boxlist \<Rightarrow> bool list \<Rightarrow> boxlist" where
  "ind_filter bl inds =
     BoxList (mask_select (boxes bl) inds) (mask_select (labels bl) inds)
       (map_option (\<lambda>s. mask_select s inds) (scores bl))"

subsection \<open>The wrapped detector\<close>

text \<open>
  \<^verbatim>\<open>self.model\<close> is torchvision's Faster R-CNN, an external collaborator: it is a parameter
  of the model. It is called with the image batch and, in the training branch, a list of
  records with the keys \<^verbatim>\<open>boxes\<close> and \<^verbatim>\<open>labels\<close>. It raises, or returns a dict of losses
  (kept as an association list: Python dicts keep insertion order), or a list with one
  record of \<^verbatim>\<open>boxes\<close>, \<^verbatim>\<open>labels\<close> and \<^verbatim>\<open>scores\<close> per image.
\<close>

record det_target =
  t_boxes :: "box list"
  t_labels :: "int list"

record detection =
  d_boxes :: "box list"
  d_labels :: "int list"
  d_scores :: "real list"

datatype 'l det_result =
    LossDict "(string \<times> 'l) list"
  | Detections "detection list"

type_synonym 'l detector = "tensor \<Rightarrow> det_target list option \<Rightarrow> error + 'l det_result"

datatype 'l forward_result =
    Losses "(string \<times> 'l) list"
  | Predictions "boxlist list"

section \<open>MyFasterRCNN.forward\<close>

text \<open>
  The loop of the training branch:
  \<^verbatim>\<open>
  new_targets = []
  for x, y in zip(input, targets):
      h, w = x.shape[1:]
      boxes = torch.cat([y.boxes, torch.tensor([[0., 0, h, w]], ...)], dim=0)
      labels = torch.cat([y.get_field('labels'), torch.tensor([0], ...)], dim=0)
      bl = BoxList(boxes, labels=labels)
      new_targets.append(bl)
  \<close>
  The unpacking \<^verbatim>\<open>h, w = x.shape[1:]\<close> raises ValueError unless the slice has exactly
  three dimensions. \<^verbatim>\<open>torch.tensor([[0., 0, h, w]])\<close> is a float32 tensor: the integers
  \<^verbatim>\<open>h\<close> and \<^verbatim>\<open>w\<close> are converted.
\<close>

fun add_bogus_boxes :: "(tensor \<times> boxlist) list \<Rightarrow> error + boxlist list" where
  "add_bogus_boxes [] = Inr []"
| "add_bogus_boxes ((x, y) # rest) =
     (case tl (shape x) of
        [h, w] \<Rightarrow>
          (let bl = BoxList (boxes y @ [(0, 0, real (f32_of_nat h), real (f32_of_nat w))])
                      (get_field_labels y @ [0]) None
           in case add_bogus_boxes rest of
                Inl e \<Rightarrow> Inl e
              | Inr new_targets \<Rightarrow> Inr (bl # new_targets))
      | _ \<Rightarrow> Inl ValueError)"

text \<open>
  \<^verbatim>\<open>_targets = [{'boxes': bl.boxes, 'labels': bl.get_field('labels')} for bl in _targets]\<close>
\<close>

definition to_det_target :: "boxlist \<Rightarrow> det_target" where
  "to_det_target bl = \<lparr>t_boxes = boxes bl, t_labels = get_field_labels bl\<rparr>"

text \<open>
  \<^verbatim>\<open>sum(list(loss_dict.values()))\<close>: Python's \<^verbatim>\<open>sum\<close> starts from 0 and adds the values
  from left to right, in the order of the dict.
\<close>

definition sum_values :: "(string \<times> 'l::{zero,plus}) list \<Rightarrow> 'l" where
  "sum_values d = foldl (+) 0 (map snd d)"

text \<open>
  \<^verbatim>\<open>BoxList(_out['boxes'], labels=_out['labels'], scores=_out['scores']).yxyx()\<close>
\<close>

definition to_boxlist :: "detection \<Rightarrow> boxlist" where
  "to_boxlist out = yxyx (BoxList (d_boxes out) (d_labels out) (Some (d_scores out)))"

text \<open>
  \<^verbatim>\<open>
  labels = bl.get_field('labels')
  non_zero_inds = labels != 0
  new_boxlists.append(bl.ind_filter(non_zero_inds))
  \<close>
\<close>

definition remove_bogus :: "boxlist \<Rightarrow> boxlist" where
  "remove_bogus bl =
     (let labels = get_field_labels bl;
          non_zero_inds = map (\<lambda>l. l \<noteq> 0) labels
      in ind_filter bl non_zero_inds)"

text \<open>
  \<^verbatim>\<open>forward(self, input, targets=None)\<close>. The test \<^verbatim>\<open>if targets:\<close> is Python's truth
  value of \<^verbatim>\<open>targets\<close>: false for \<^verbatim>\<open>None\<close> and for the empty list.

  In the training branch, \<^verbatim>\<open>loss_dict.values()\<close> raises AttributeError when the detector
  returned a list. In the other branch, iterating over a dict yields its keys, and
  \<^verbatim>\<open>_out['boxes']\<close> on a string raises TypeError.
\<close>

definition truthy :: "'a list option \<Rightarrow> bool" where
  "truthy targets = (case targets of None \<Rightarrow> False | Some [] \<Rightarrow> False | Some (_ # _) \<Rightarrow> True)"

definition forward ::
  "('l::{zero,plus}) detector \<Rightarrow> tensor \<Rightarrow> boxlist list option \<Rightarrow> error + 'l forward_result" where
  "forward model input targets =
     (if truthy targets then
        (case iter_tensor input of
           Inl e \<Rightarrow> Inl e
         | Inr xs \<Rightarrow>
            (case add_bogus_boxes (zip xs (the targets)) of
               Inl e \<Rightarrow> Inl e
             | Inr new_targets \<Rightarrow>
                (let targets1 = map xyxy new_targets;
                     targets2 = map to_det_target targets1
                 in case model input (Some targets2) of
                      Inl e \<Rightarrow> Inl e
                    | Inr (Detections _) \<Rightarrow> Inl AttributeError
                    | Inr (LossDict loss_dict) \<Rightarrow>
                        Inr (Losses (AList.update ''total_loss'' (sum_values loss_dict)
                                       loss_dict)))))
      else
        (case model input None of
           Inl e \<Rightarrow> Inl e
         | Inr (LossDict []) \<Rightarrow> Inr (Predictions [])
         | Inr (LossDict (_ # _)) \<Rightarrow> Inl TypeError
         | Inr (Detections out) \<Rightarrow>
             (let boxlists = map to_boxlist out
              in Inr (Predictions (map remove_bogus boxlists)))))"


section \<open>forward on BoxList objects\<close>

text \<open>
  A BoxList is an object: the caller passes a reference, and code that holds the reference
  could assign to the object's fields or change its arrays in place. To state what
  \<^verbatim>\<open>forward\<close> does to the objects it is given, the BoxLists live in a heap, a list of
  object states indexed by address. \<^verbatim>\<open>torch.cat\<close> and \<^verbatim>\<open>torch.tensor\<close> return new arrays.
\<close>

type_synonym heap = "boxlist list"

text \<open>
  Modelled from the spec: the constructor and the methods \<^verbatim>\<open>xyxy\<close>, \<^verbatim>\<open>yxyx\<close> and
  \<^verbatim>\<open>ind_filter\<close> of BoxList return a new instance (construct-with(boxes, labels, scores?),
  convert-to-ordering, filter-by-mask: new instance); the boxlist module is missing from
  the sources. \<open>new_boxlist\<close> allocates the new object behind the objects there are.
\<close>

definition new_boxlist :: "boxlist \<Rightarrow> heap \<Rightarrow> nat \<times> heap" where
  "new_boxlist bl hp = (length hp, hp @ [bl])"

text \<open>
  The result of forward with references: the BoxLists of the prediction set are addresses.
\<close>

datatype 'l forward_result_refs =
    LossesR "(string \<times> 'l) list"
  | PredictionsR "nat list"

text \<open>
  The loop of the training branch, on references: \<^verbatim>\<open>y.boxes\<close> and
  \<^verbatim>\<open>y.get_field('labels')\<close> read the object at \<open>y\<close>, and \<^verbatim>\<open>BoxList(boxes, labels=labels)\<close>
  allocates.
\<close>

fun add_bogus_boxes_refs :: "(tensor \<times> nat) list \<Rightarrow> heap \<Rightarrow> (error + nat list) \<times> heap" where
  "add_bogus_boxes_refs [] hp = (Inr [], hp)"
| "add_bogus_boxes_refs ((x, y) # rest) hp =
     (case tl (shape x) of
        [h, w] \<Rightarrow>
          (case new_boxlist
                  (BoxList (boxes (hp ! y) @ [(0, 0, real (f32_of_nat h), real (f32_of_nat w))])
                     (get_field_labels (hp ! y) @ [0]) None) hp of
             (bl, hp1) \<Rightarrow>
               (case add_bogus_boxes_refs rest hp1 of
                  (Inl e, hp2) \<Rightarrow> (Inl e, hp2)
                | (Inr new_targets, hp2) \<Rightarrow> (Inr (bl # new_targets), hp2)))
      | _ \<Rightarrow> (Inl ValueError, hp))"

text \<open>
  \<^verbatim>\<open>[bl.xyxy() for bl in new_targets]\<close>
\<close>

fun xyxy_refs :: "nat list \<Rightarrow> heap \<Rightarrow> nat list \<times> heap" where
  "xyxy_refs [] hp = ([], hp)"
| "xyxy_refs (bl # bls) hp =
     (case new_boxlist (xyxy (hp ! bl)) hp of
        (r, hp1) \<Rightarrow> (case xyxy_refs bls hp1 of (rs, hp2) \<Rightarrow> (r # rs, hp2)))"

text \<open>
  \<^verbatim>\<open>[BoxList(_out['boxes'], labels=_out['labels'], scores=_out['scores']).yxyx()
    for _out in out]\<close>: two objects for each image.
\<close>

fun to_boxlist_refs :: "detection list \<Rightarrow> heap \<Rightarrow> nat list \<times> heap" where
  "to_boxlist_refs [] hp = ([], hp)"
| "to_boxlist_refs (out # outs) hp =
     (case new_boxlist (BoxList (d_boxes out) (d_labels out) (Some (d_scores out))) hp of
        (b, hp1) \<Rightarrow>
          (case new_boxlist (yxyx (hp1 ! b)) hp1 of
             (r, hp2) \<Rightarrow> (case to_boxlist_refs outs hp2 of (rs, hp3) \<Rightarrow> (r # rs, hp3))))"

text \<open>
  The loop that removes the background boxes: \<^verbatim>\<open>bl.ind_filter(non_zero_inds)\<close> allocates.
\<close>

fun remove_bogus_refs :: "nat list \<Rightarrow> heap \<Rightarrow> nat list \<times> heap" where
  "remove_bogus_refs [] hp = ([], hp)"
| "remove_bogus_refs (bl # bls) hp =
     (case new_boxlist (remove_bogus (hp ! bl)) hp of
        (r, hp1) \<Rightarrow> (case remove_bogus_refs bls hp1 of (rs, hp2) \<Rightarrow> (r # rs, hp2)))"

text \<open>
  \<^verbatim>\<open>forward\<close> with the targets passed by reference. The detector is handed the arrays of
  the objects that \<^verbatim>\<open>xyxy\<close> returned.
\<close>

definition forward_refs ::
  "('l::{zero,plus}) detector \<Rightarrow> tensor \<Rightarrow> nat list option \<Rightarrow> heap \<Rightarrow>
   (error + 'l forward_result_refs) \<times> heap" where
  "forward_refs model input targets hp =
     (if truthy targets then
        (case iter_tensor input of
           Inl e \<Rightarrow> (Inl e, hp)
         | Inr xs \<Rightarrow>
            (case add_bogus_boxes_refs (zip xs (the targets)) hp of
               (Inl e, hp1) \<Rightarrow> (Inl e, hp1)
             | (Inr new_targets, hp1) \<Rightarrow>
                (case xyxy_refs new_targets hp1 of
                   (targets1, hp2) \<Rightarrow>
                     (let targets2 = map (\<lambda>bl. to_det_target (hp2 ! bl)) targets1
                      in case model input (Some targets2) of
                           Inl e \<Rightarrow> (Inl e, hp2)
                         | Inr (Detections _) \<Rightarrow> (Inl AttributeError, hp2)
                         | Inr (LossDict loss_dict) \<Rightarrow>
                             (Inr (LossesR (AList.update ''total_loss'' (sum_values loss_dict)
                                              loss_dict)), hp2)))))
      else
        (case model input None of
           Inl e \<Rightarrow> (Inl e, hp)
         | Inr (LossDict []) \<Rightarrow> (Inr (PredictionsR []), hp)
         | Inr (LossDict (_ # _)) \<Rightarrow> (Inl TypeError, hp)
         | Inr (Detections out) \<Rightarrow>
             (case to_boxlist_refs out hp of
                (boxlists, hp1) \<Rightarrow>
                  (case remove_bogus_refs boxlists hp1 of
                     (new_boxlists, hp2) \<Rightarrow> (Inr (PredictionsR new_boxlists), hp2)))))"

text \<open>
  What a result with references stands for in a heap.
\<close>

definition deref_result :: "heap \<Rightarrow> 'l forward_result_refs \<Rightarrow> 'l forward_result" where
  "deref_result hp r =
     (case r of
        LossesR d \<Rightarrow> Losses d
      | PredictionsR bls \<Rightarrow> Predictions (map (\<lambda>bl. hp ! bl) bls))"

section \<open>Backbone construction\<close>

subsection \<open>Parameter names\<close>

text \<open>
  Python's \<^verbatim>\<open>sub in name\<close> on strings: \<open>sub\<close> occurs in \<open>name\<close> as a contiguous
  substring.
\<close>

fun starts_with :: "string \<Rightarrow> string \<Rightarrow> bool" where
  "starts_with [] s = True"
| "starts_with (c # cs) [] = False"
| "starts_with (c # cs) (d # ds) = (c = d \<and> starts_with cs ds)"

fun str_contains :: "string \<Rightarrow> string \<Rightarrow> bool" where
  "str_contains sub [] = (sub = [])"
| "str_contains sub (c # cs) = (starts_with sub (c # cs) \<or> str_contains sub cs)"

subsection \<open>The base network and its forward hooks\<close>

text \<open>
  The base network is a torchvision ResNet, an external collaborator. What the code under
  verification uses of it: its named parameters with their \<^verbatim>\<open>requires_grad\<close> flags, the
  four stages \<^verbatim>\<open>layer1\<close> to \<^verbatim>\<open>layer4\<close>, which its forward pass runs in this order between
  a stem and a head, and the forward hooks registered on each stage. The stem, the stages
  and the head are parameters of the model.
\<close>

datatype stage = Layer1 | Layer2 | Layer3 | Layer4

definition stage_name :: "stage \<Rightarrow> string" where
  "stage_name s =
     (case s of Layer1 \<Rightarrow> ''layer1'' | Layer2 \<Rightarrow> ''layer2'' | Layer3 \<Rightarrow> ''layer3''
      | Layer4 \<Rightarrow> ''layer4'')"

text \<open>
  The only hooks this code registers are the closures \<^verbatim>\<open>save_output\<close> that
  \<^verbatim>\<open>make_save_output(layer_name)\<close> returns. Such a closure holds the layer name and a
  reference to the dict \<^verbatim>\<open>out\<close> of the call of \<^verbatim>\<open>get_out_channels\<close> that made it; the dicts
  live in a store and are referred to by address, since the hooks outlive the call.
\<close>

datatype hook = SaveOutput nat string

fun hook_dict :: "hook \<Rightarrow> nat" where
  "hook_dict (SaveOutput out layer_name) = out"

record store =
  dicts :: "nat \<Rightarrow> (string \<rightharpoonup> nat)"
  next_free :: nat

definition new_dict :: "store \<Rightarrow> nat \<times> store" where
  "new_dict st =
     (next_free st,
      st\<lparr>dicts := (dicts st)(next_free st := Map.empty), next_free := Suc (next_free st)\<rparr>)"

record resnet =
  named_parameters :: "(string \<times> bool) list"
  stem :: "tensor \<Rightarrow> tensor"
  layer :: "stage \<Rightarrow> tensor \<Rightarrow> tensor"
  head :: "tensor \<Rightarrow> tensor"
  forward_hooks :: "stage \<Rightarrow> hook list"

text \<open>
  \<^verbatim>\<open>
  def save_output(layer, input, output):
      out[layer_name] = output.shape[1]
  \<close>
  \<^verbatim>\<open>output.shape[1]\<close> raises IndexError when the output has fewer than two dimensions.
  The hook returns \<^verbatim>\<open>None\<close>, so the stage's output is passed on unchanged.
\<close>

definition save_output :: "nat \<Rightarrow> string \<Rightarrow> tensor \<Rightarrow> store \<Rightarrow> error + store" where
  "save_output out layer_name output st =
     (case shape output of
        _ # c # _ \<Rightarrow> Inr (st\<lparr>dicts := (dicts st)(out := (dicts st out)(layer_name \<mapsto> c))\<rparr>)
      | _ \<Rightarrow> Inl IndexError)"

text \<open>
  Calling a module runs its forward function and then its forward hooks, in the order of
  their registration; \<^verbatim>\<open>register_forward_hook\<close> appends to that list.
\<close>

fun run_hooks :: "hook list \<Rightarrow> tensor \<Rightarrow> store \<Rightarrow> error + store" where
  "run_hooks [] output st = Inr st"
| "run_hooks (SaveOutput out layer_name # hooks) output st =
     (case save_output out layer_name output st of
        Inl e \<Rightarrow> Inl e
      | Inr st' \<Rightarrow> run_hooks hooks output st')"

definition call_layer :: "resnet \<Rightarrow> stage \<Rightarrow> tensor \<Rightarrow> store \<Rightarrow> error + tensor \<times> store" where
  "call_layer model s x st =
     (let output = layer model s x
      in case run_hooks (forward_hooks model s) output st of
           Inl e \<Rightarrow> Inl e
         | Inr st' \<Rightarrow> Inr (output, st'))"

definition call_resnet :: "resnet \<Rightarrow> tensor \<Rightarrow> store \<Rightarrow> error + tensor \<times> store" where
  "call_resnet model x st =
     (case call_layer model Layer1 (stem model x) st of
        Inl e \<Rightarrow> Inl e
      | Inr (x1, st1) \<Rightarrow>
     (case call_layer model Layer2 x1 st1 of
        Inl e \<Rightarrow> Inl e
      | Inr (x2, st2) \<Rightarrow>
     (case call_layer model Layer3 x2 st2 of
        Inl e \<Rightarrow> Inl e
      | Inr (x3, st3) \<Rightarrow>
     (case call_layer model Layer4 x3 st3 of
        Inl e \<Rightarrow> Inl e
      | Inr (x4, st4) \<Rightarrow> Inr (head model x4, st4)))))"

definition register_forward_hook :: "stage \<Rightarrow> hook \<Rightarrow> resnet \<Rightarrow> resnet" where
  "register_forward_hook s h model =
     model\<lparr>forward_hooks := (forward_hooks model)(s := forward_hooks model s @ [h])\<rparr>"

text \<open>
  The stage outputs of the network alone, and its result: what a forward pass computes
  when no hook is registered.
\<close>

definition stage_outputs :: "resnet \<Rightarrow> tensor \<Rightarrow> tensor list" where
  "stage_outputs model x =
     (let x1 = layer model Layer1 (stem model x);
          x2 = layer model Layer2 x1;
          x3 = layer model Layer3 x2;
          x4 = layer model Layer4 x3
      in [x1, x2, x3, x4])"

subsection \<open>get\_out\_channels\<close>

text \<open>
  \<^verbatim>\<open>torch.empty(size)\<close> returns a tensor of the given shape over uninitialised memory: its
  elements are whatever the allocated block holds, here the parameter \<open>mem\<close>.
\<close>

definition torch_empty :: "nat list \<Rightarrow> (nat \<Rightarrow> real) \<Rightarrow> tensor" where
  "torch_empty sz mem = \<lparr>shape = sz, elems = mem\<rparr>"

definition zero_valued :: "tensor \<Rightarrow> bool" where
  "zero_valued t = (\<forall>i<prod_list (shape t). elems t i = 0)"

text \<open>
  \<^verbatim>\<open>
  def get_out_channels(model):
      out = {}
      ...
      model.layer1.register_forward_hook(make_save_output('layer1'))
      model.layer2.register_forward_hook(make_save_output('layer2'))
      model.layer3.register_forward_hook(make_save_output('layer3'))
      model.layer4.register_forward_hook(make_save_output('layer4'))

      model(torch.empty((1, 3, 128, 128)))
      return [out['layer1'], out['layer2'], out['layer3'], out['layer4']]
  \<close>
  The function mutates the network (the hooks) and the store (the dict \<^verbatim>\<open>out\<close>), so it
  returns both with its result. The handles that \<^verbatim>\<open>register_forward_hook\<close> returns are
  dropped.
\<close>

definition get_out_channels ::
  "resnet \<Rightarrow> store \<Rightarrow> (nat \<Rightarrow> real) \<Rightarrow> error + nat list \<times> resnet \<times> store" where
  "get_out_channels model st mem =
     (case new_dict st of (out, st0) \<Rightarrow>
        (let model1 = register_forward_hook Layer1 (SaveOutput out ''layer1'') model;
             model2 = register_forward_hook Layer2 (SaveOutput out ''layer2'') model1;
             model3 = register_forward_hook Layer3 (SaveOutput out ''layer3'') model2;
             model4 = register_forward_hook Layer4 (SaveOutput out ''layer4'') model3
         in case call_resnet model4 (torch_empty [1, 3, 128, 128] mem) st0 of
              Inl e \<Rightarrow> Inl e
            | Inr (_, st1) \<Rightarrow>
               (case dicts st1 out ''layer1'' of
                  None \<Rightarrow> Inl (KeyError ''layer1'')
                | Some c1 \<Rightarrow>
               (case dicts st1 out ''layer2'' of
                  None \<Rightarrow> Inl (KeyError ''layer2'')
                | Some c2 \<Rightarrow>
               (case dicts st1 out ''layer3'' of
                  None \<Rightarrow> Inl (KeyError ''layer3'')
                | Some c3 \<Rightarrow>
               (case dicts st1 out ''layer4'' of
                  None \<Rightarrow> Inl (KeyError ''layer4'')
                | Some c4 \<Rightarrow> Inr ([c1, c2, c3, c4], model4, st1)))))))"

subsection \<open>resnet\_fpn\_backbone\<close>

text \<open>
  \<^verbatim>\<open>
  for name, parameter in backbone.named_parameters():
      if 'layer2' not in name and 'layer3' not in name and 'layer4' not in name:
          parameter.requires_grad_(False)
  \<close>
\<close>

definition freeze_layers :: "(string \<times> bool) list \<Rightarrow> (string \<times> bool) list" where
  "freeze_layers ps =
     map (\<lambda>(name, requires_grad).
            if \<not> str_contains ''layer2'' name \<and> \<not> str_contains ''layer3'' name \<and>
               \<not> str_contains ''layer4'' name
            then (name, False)
            else (name, requires_grad)) ps"

text \<open>
  \<^verbatim>\<open>BackboneWithFPN\<close> is torchvision's wrapper; the builder hands it the network, the
  stage names with their pyramid levels, the measured channel counts and the width 256.
  \<^verbatim>\<open>resnet.__dict__[backbone_name]\<close> raises KeyError for a name the module does not
  define; the module's constructors are the parameter \<open>resnet_dict\<close>.
\<close>

record backbone_with_fpn =
  body :: resnet
  return_layers :: "(string \<times> nat) list"
  in_channels_list :: "nat list"
  out_channels :: nat

definition resnet_fpn_backbone ::
  "(string \<Rightarrow> (bool \<Rightarrow> resnet) option) \<Rightarrow> string \<Rightarrow> bool \<Rightarrow> store \<Rightarrow> (nat \<Rightarrow> real) \<Rightarrow>
   error + backbone_with_fpn \<times> store" where
  "resnet_fpn_backbone resnet_dict backbone_name pretrained st mem =
     (case resnet_dict backbone_name of
        None \<Rightarrow> Inl (KeyError backbone_name)
      | Some constructor \<Rightarrow>
          (let backbone = constructor pretrained;
               backbone1 = backbone\<lparr>named_parameters := freeze_layers (named_parameters backbone)\<rparr>;
               layers = [(''layer1'', 0), (''layer2'', 1), (''layer3'', 2), (''layer4'', 3)];
               width = 256
           in case get_out_channels backbone1 st mem of
                Inl e \<Rightarrow> Inl e
              | Inr (channels, backbone2, st') \<Rightarrow>
                  Inr (\<lparr>body = backbone2, return_layers = layers,
                        in_channels_list = channels, out_channels = width\<rparr>,
                       st')))"

section \<open>Concrete inputs\<close>

text \<open>
  A batch of \<open>n\<close> images of height 4 and width 6, a detector that insists on one target
  per image, as torchvision's does, and two ground-truth BoxLists: one without boxes and
  one with a single box.
\<close>

definition example_batch :: "nat \<Rightarrow> tensor" where
  "example_batch n = \<lparr>shape = [n, 3, 4, 6], elems = (\<lambda>_. 0)\<rparr>"

definition strict_detector :: "real detector" where
  "strict_detector input targets =
     (case targets of
        None \<Rightarrow> Inr (Detections [])
      | Some ts \<Rightarrow>
          (case shape input of
             [] \<Rightarrow> Inl (DetectorError ''no batch dimension'')
           | n # _ \<Rightarrow>
               if length ts = n
               then Inr (LossDict [(''loss_classifier'', 1), (''loss_box_reg'', 2),
                                   (''loss_objectness'', 3), (''loss_rpn_box_reg'', 4)])
               else Inl (DetectorError ''batch size mismatch'')))"

definition no_boxes :: boxlist where
  "no_boxes = BoxList [] [] None"

definition one_box :: boxlist where
  "one_box = BoxList [(1, 2, 3, 4)] [7] None"



text \<open>
  A detector whose answer for the first image has five boxes, two of them with the
  background label, and for the second image background boxes only.
\<close>

definition five_detections :: "real detector" where
  "five_detections input targets =
     Inr (Detections
       [\<lparr>d_boxes = [(1, 1, 2, 2), (0, 0, 6, 4), (2, 1, 5, 3), (0, 0, 6, 4), (3, 0, 4, 1)],
         d_labels = [1, 0, 2, 0, 1],
         d_scores = [0.9, 0.8, 0.7, 0.6, 0.5]\<rparr>,
        \<lparr>d_boxes = [(0, 0, 6, 4), (0, 0, 6, 4)],
         d_labels = [0, 0],
         d_scores = [0.4, 0.3]\<rparr>])"

text \<open>
  A small network with the stage widths of ResNet-18, the registry that knows it under
  that name, a store without dicts, and a block of memory that holds ones.
\<close>

definition stage_width :: "stage \<Rightarrow> nat" where
  "stage_width s = (case s of Layer1 \<Rightarrow> 64 | Layer2 \<Rightarrow> 128 | Layer3 \<Rightarrow> 256 | Layer4 \<Rightarrow> 512)"

definition tiny_resnet :: "bool \<Rightarrow> resnet" where
  "tiny_resnet pretrained =
     \<lparr>named_parameters =
        [(''conv1.weight'', True), (''layer1.0.conv1.weight'', True),
         (''layer2.0.conv1.weight'', True), (''layer3.0.conv1.weight'', True),
         (''layer4.0.conv1.weight'', True), (''fc.weight'', True), (''fc.bias'', True)],
      stem = (\<lambda>x. \<lparr>shape = [1, 64, 32, 32], elems = elems x\<rparr>),
      layer = (\<lambda>s x. \<lparr>shape = [1, stage_width s, 8, 8], elems = elems x\<rparr>),
      head = (\<lambda>x. \<lparr>shape = [1, 1000], elems = elems x\<rparr>),
      forward_hooks = (\<lambda>s. [])\<rparr>"

definition resnet_zoo :: "string \<Rightarrow> (bool \<Rightarrow> resnet) option" where
  "resnet_zoo name = (if name = ''resnet18'' then Some tiny_resnet else None)"

definition empty_store :: store where
  "empty_store = \<lparr>dicts = (\<lambda>_. Map.empty), next_free = 0\<rparr>"

definition leftover_memory :: "nat \<Rightarrow> real" where
  "leftover_memory i = 1"

section \<open>Properties of forward\<close>

subsection \<open>Auxiliary facts\<close>

lemma excess_bits_small: "m < 2 ^ p \<Longrightarrow> excess_bits p m = 0"
  by (simp add: excess_bits.simps)

lemma round_to_small: "m < 2 ^ p \<Longrightarrow> round_to p m = m"
  by (simp add: round_to_def excess_bits_small)

lemma excess_bits_next: "2 ^ p \<le> m \<Longrightarrow> m < 2 ^ Suc p \<Longrightarrow> excess_bits p m = 1"
  using excess_bits.simps[of p m] excess_bits_small[of "m div 2" p] by simp

lemma round_to_24_pow: "round_to 24 16777216 = 16777216"
  by (simp add: round_to_def excess_bits_next)


lemma f32_of_nat_exact: "m \<le> 16777216 \<Longrightarrow> f32_of_nat m = m"
proof (cases "m = 16777216")
  case True
  then show ?thesis by (simp add: f32_of_nat_def round_to_small round_to_24_pow)
next
  case False
  assume "m \<le> 16777216"
  with False have "m < 2 ^ 24" by simp
  moreover then have "m < 2 ^ 53" by simp
  ultimately show ?thesis by (simp add: f32_of_nat_def round_to_small)
qed


lemma swap_order_idem: "swap_order (swap_order b) = b"
  by (cases b) (simp add: swap_order_def)

lemma iter_tensor_shape:
  "shape input = n # rest \<Longrightarrow>
   \<exists>xs. iter_tensor input = Inr xs \<and> length xs = n \<and> (\<forall>x\<in>set xs. shape x = rest)"
  by (auto simp: iter_tensor_def)

lemma add_bogus_boxes_ok:
  "\<forall>x\<in>set xs. tl (shape x) = [h, w] \<Longrightarrow>
   add_bogus_boxes (zip xs ts) =
     Inr (map (\<lambda>y. BoxList (boxes y @
                 [(0, 0, real (f32_of_nat h), real (f32_of_nat w))]) (labels y @ [0]) None)
            (take (length xs) ts))"
proof (induction xs arbitrary: ts)
  case Nil
  then show ?case by simp
next
  case (Cons x xs)
  show ?case
  proof (cases ts)
    case Nil
    then show ?thesis by simp
  next
    case (Cons y ys)
    with Cons.prems Cons.IH[of ys] show ?thesis
      by (simp add: get_field_labels_def)
  qed
qed


lemma mask_select_nonzero:
  "mask_select ls (map (\<lambda>l. l \<noteq> (0::int)) ls) = filter (\<lambda>l. l \<noteq> 0) ls"
  unfolding mask_select_def by (induction ls) simp_all

lemma length_mask_select:
  "length xs = length ls \<Longrightarrow>
   length (mask_select xs (map (\<lambda>l. l \<noteq> (0::int)) ls)) = length (filter (\<lambda>l. l \<noteq> 0) ls)"
  unfolding mask_select_def by (induction xs ls rule: list_induct2) simp_all

lemma mask_select_all_zero:
  "\<forall>l\<in>set ls. l = (0::int) \<Longrightarrow> mask_select xs (map (\<lambda>l. l \<noteq> 0) ls) = []"
  unfolding mask_select_def
proof (induction ls arbitrary: xs)
  case Nil
  then show ?case by simp
next
  case (Cons l ls)
  then show ?case by (cases xs) simp_all
qed

lemma labels_remove_bogus:
  "labels (remove_bogus (to_boxlist out)) = filter (\<lambda>l. l \<noteq> 0) (d_labels out)"
  by (simp add: remove_bogus_def to_boxlist_def yxyx_def ind_filter_def BoxList_def
      get_field_labels_def mask_select_nonzero Let_def)

lemma boxes_remove_bogus:
  "boxes (remove_bogus (to_boxlist out)) =
     mask_select (map swap_order (d_boxes out)) (map (\<lambda>l. l \<noteq> 0) (d_labels out))"
  by (simp add: remove_bogus_def to_boxlist_def yxyx_def ind_filter_def BoxList_def
      get_field_labels_def Let_def)

lemma forward_Predictions_D:
  assumes "forward model input targets = Inr (Predictions bls)"
  shows "bls = [] \<or> (\<exists>out. model input None = Inr (Detections out) \<and>
            bls = map remove_bogus (map to_boxlist out))"
  using assms unfolding forward_def
  by (auto simp: Let_def split: if_splits sum.splits det_result.splits list.splits)

lemma forward_training:
  assumes "ts \<noteq> []" and "shape input = [n, c, h, w]"
  shows "forward model input (Some ts) =
           (case model input
                   (Some (map (\<lambda>y. \<lparr>t_boxes = map swap_order (boxes y @
                               [(0, 0, real (f32_of_nat h), real (f32_of_nat w))]),
                                      t_labels = labels y @ [0]\<rparr>) (take n ts))) of
              Inl e \<Rightarrow> Inl e
            | Inr (Detections _) \<Rightarrow> Inl AttributeError
            | Inr (LossDict d) \<Rightarrow> Inr (Losses (AList.update ''total_loss'' (sum_values d) d)))"
proof -
  from iter_tensor_shape[OF assms(2)] obtain xs where
    xs: "iter_tensor input = Inr xs" "length xs = n" "\<forall>x\<in>set xs. shape x = [c, h, w]" by blast
  from xs(3) have "\<forall>x\<in>set xs. tl (shape x) = [h, w]" by simp
  note ab = add_bogus_boxes_ok[OF this, of ts]
  from assms(1) have tr: "truthy (Some ts)" by (cases ts) (simp_all add: truthy_def)
  show ?thesis
    unfolding forward_def using tr xs(1,2) ab
    by (simp add: Let_def comp_def to_det_target_def xyxy_def BoxList_def get_field_labels_def)
qed

subsection \<open>Loss aggregation\<close>






subsection \<open>The background box of the training branch\<close>





subsection \<open>The background filter of the inference branch\<close>

text \<open>
  C3. No BoxList of a returned prediction set holds the label 0. When no targets are
  given and the detector answers with its per-image records, forward returns one BoxList
  per record (it does not raise); its labels are the detector's labels without the zeros,
  it has as many boxes as non-zero labels, and it is empty when every label is 0.
\<close>

theorem inference_removes_background:
  "(\<forall>bls. forward model input targets = Inr (Predictions bls) \<longrightarrow>
      (\<forall>bl\<in>set bls. 0 \<notin> set (labels bl))) \<and>
   (\<forall>out. \<not> truthy targets \<and> model input None = Inr (Detections out) \<longrightarrow>
      (\<exists>bls. forward model input targets = Inr (Predictions bls) \<and>
         length bls = length out \<and>
         (\<forall>i<length out.
            labels (bls ! i) = filter (\<lambda>l. l \<noteq> 0) (d_labels (out ! i)) \<and>
            (length (d_boxes (out ! i)) = length (d_labels (out ! i)) \<longrightarrow>
               length (boxes (bls ! i)) =
                 length (filter (\<lambda>l. l \<noteq> 0) (d_labels (out ! i)))) \<and>
            ((\<forall>l\<in>set (d_labels (out ! i)). l = 0) \<longrightarrow>
               boxes (bls ! i) = [] \<and> labels (bls ! i) = []))))"
proof (intro conjI allI impI)
  fix bls
  assume "forward model input targets = Inr (Predictions bls)"
  from forward_Predictions_D[OF this]
  show "\<forall>bl\<in>set bls. 0 \<notin> set (labels bl)"
    by (auto simp: labels_remove_bogus)
next
  fix out
  assume a: "\<not> truthy targets \<and> model input None = Inr (Detections out)"
  let ?bls = "map remove_bogus (map to_boxlist out)"
  from a have fw: "forward model input targets = Inr (Predictions ?bls)"
    by (simp add: forward_def Let_def)
  have "\<forall>i<length out.
            labels (?bls ! i) = filter (\<lambda>l. l \<noteq> 0) (d_labels (out ! i)) \<and>
            (length (d_boxes (out ! i)) = length (d_labels (out ! i)) \<longrightarrow>
               length (boxes (?bls ! i)) =
                 length (filter (\<lambda>l. l \<noteq> 0) (d_labels (out ! i)))) \<and>
            ((\<forall>l\<in>set (d_labels (out ! i)). l = 0) \<longrightarrow>
               boxes (?bls ! i) = [] \<and> labels (?bls ! i) = [])"
    by (auto simp: labels_remove_bogus boxes_remove_bogus length_mask_select
        mask_select_all_zero filter_empty_conv)
  with fw show "\<exists>bls. forward model input targets = Inr (Predictions bls) \<and>
         length bls = length out \<and>
         (\<forall>i<length out.
            labels (bls ! i) = filter (\<lambda>l. l \<noteq> 0) (d_labels (out ! i)) \<and>
            (length (d_boxes (out ! i)) = length (d_labels (out ! i)) \<longrightarrow>
               length (boxes (bls ! i)) =
                 length (filter (\<lambda>l. l \<noteq> 0) (d_labels (out ! i)))) \<and>
            ((\<forall>l\<in>set (d_labels (out ! i)). l = 0) \<longrightarrow>
               boxes (bls ! i) = [] \<and> labels (bls ! i) = []))"
    by (intro exI[of _ ?bls]) simp
qed

theorem inference_removes_background_witness:
  "forward five_detections (example_batch 2) None =
     Inr (Predictions
       [\<lparr>boxes = [(1, 1, 2, 2), (1, 2, 3, 5), (0, 3, 1, 4)], labels = [1, 2, 1],
         scores = Some [0.9, 0.7, 0.5]\<rparr>,
        \<lparr>boxes = [], labels = [], scores = Some []\<rparr>]) \<and>
   0 \<notin> set (labels \<lparr>boxes = [(1, 1, 2, 2), (1, 2, 3, 5), (0, 3, 1, 4)], labels = [1, 2, 1],
                      scores = Some [0.9, 0.7, 0.5]\<rparr>) \<and>
   0 \<notin> set (labels \<lparr>boxes = [], labels = [], scores = Some []\<rparr>)"
proof -
  have fw: "forward five_detections (example_batch 2) None =
     Inr (Predictions
       [\<lparr>boxes = [(1, 1, 2, 2), (1, 2, 3, 5), (0, 3, 1, 4)], labels = [1, 2, 1],
         scores = Some [0.9, 0.7, 0.5]\<rparr>,
        \<lparr>boxes = [], labels = [], scores = Some []\<rparr>])"
    by (simp add: forward_def truthy_def five_detections_def to_boxlist_def remove_bogus_def
        yxyx_def ind_filter_def mask_select_def BoxList_def get_field_labels_def
        swap_order_def Let_def)
  from inference_removes_background[of five_detections "example_batch 2" None] fw
  have "\<forall>bl\<in>set [\<lparr>boxes = [(1, 1, 2, 2), (1, 2, 3, 5), (0, 3, 1, 4)], labels = [1, 2, 1],
                      scores = Some [0.9, 0.7, 0.5]\<rparr>,
                    \<lparr>boxes = [], labels = [], scores = Some []\<rparr>]. 0 \<notin> set (labels bl)"
    by blast
  with fw show ?thesis by simp
qed

subsection \<open>Target lists of the wrong length\<close>

text \<open>
  C7 as stated fails: a call with more targets than images succeeds, the detector never
  sees the second target.
\<close>

theorem excess_targets_dropped:
  "forward strict_detector (example_batch 1) (Some [one_box, no_boxes]) =
     Inr (Losses [(''loss_classifier'', 1), (''loss_box_reg'', 2), (''loss_objectness'', 3),
                  (''loss_rpn_box_reg'', 4), (''total_loss'', 10)])"
  by (simp add: forward_def truthy_def iter_tensor_def example_batch_def no_boxes_def one_box_def
      strict_detector_def sum_values_def BoxList_def get_field_labels_def)

text \<open>
  C7, amended. With a non-empty target list on a batch of shape \<open>[n, c, h, w]\<close>, the
  detector is called with the augmented first \<open>n\<close> targets (all of them when there are
  fewer than \<open>n\<close>); an error it raises is returned unchanged, and a loss record it
  returns becomes forward's loss record.
\<close>

theorem target_count_mismatch:
  assumes "ts \<noteq> []" and "shape input = [n, c, h, w]"
  shows "\<exists>dts.
           dts = map (\<lambda>y. \<lparr>t_boxes = map swap_order (boxes y @
                       [(0, 0, real (f32_of_nat h), real (f32_of_nat w))]),
                            t_labels = labels y @ [0]\<rparr>) (take n ts) \<and>
           length dts = min n (length ts) \<and>
           (\<forall>e. model input (Some dts) = Inl e \<longrightarrow> forward model input (Some ts) = Inl e) \<and>
           (\<forall>d. model input (Some dts) = Inr (LossDict d) \<longrightarrow>
                (\<exists>r. forward model input (Some ts) = Inr (Losses r)))"
  using forward_training[OF assms, of model] by (auto simp: min.commute)

theorem target_count_mismatch_witness:
  "[one_box] \<noteq> [] \<and> shape (example_batch 2) = [2, 3, 4, 6] \<and>
   forward strict_detector (example_batch 2) (Some [one_box]) =
     Inl (DetectorError ''batch size mismatch'')"
proof -
  have h1: "[one_box] \<noteq> []" by simp
  have h2: "shape (example_batch 2) = [2, 3, 4, 6]" by (simp add: example_batch_def)
  from target_count_mismatch[OF h1 h2, of strict_detector]
  obtain dts where len: "length dts = min 2 (length [one_box])"
    and err: "\<forall>e. strict_detector (example_batch 2) (Some dts) = Inl e \<longrightarrow>
                 forward strict_detector (example_batch 2) (Some [one_box]) = Inl e"
    by blast
  from len have "strict_detector (example_batch 2) (Some dts) =
                   Inl (DetectorError ''batch size mismatch'')"
    by (simp add: strict_detector_def example_batch_def)
  with err h1 h2 show ?thesis by blast
qed


subsection \<open>Choice of the branch\<close>

text \<open>
  C5. The branch is chosen by the truth value of \<^verbatim>\<open>targets\<close>, so an empty target list
  is treated as no targets at all: the call takes the inference branch, although the
  docstring promises the losses whenever \<^verbatim>\<open>targets\<close> is a list.
\<close>

theorem forward_empty_targets_is_inference:
  "forward model input (Some []) = forward model input None"
  by (simp add: forward_def truthy_def)

subsection \<open>Coordinate orderings\<close>

text \<open>
  C9. Converting a BoxList to the detector's ordering and back, or the other way round,
  gives the BoxList back; both conversions are bijections.
\<close>

theorem orderings_mutually_inverse:
  "yxyx (xyxy bl) = bl \<and> xyxy (yxyx bl) = bl \<and> bij xyxy \<and> bij yxyx"
proof -
  have a: "yxyx (xyxy b) = b" and b: "xyxy (yxyx b) = b" for b
    by (simp_all add: yxyx_def xyxy_def BoxList_def swap_order_idem comp_def)
  have "bij xyxy" by (rule bij_betw_byWitness[where f' = yxyx]) (auto simp: a b)
  moreover have "bij yxyx" by (rule bij_betw_byWitness[where f' = xyxy]) (auto simp: a b)
  ultimately show ?thesis using a b by simp
qed

section \<open>Properties of the backbone construction\<close>

subsection \<open>Auxiliary facts\<close>

lemma starts_with_iff: "starts_with sub s \<longleftrightarrow> (\<exists>post. s = sub @ post)"
  by (induction sub s rule: starts_with.induct) auto

lemma str_contains_iff: "str_contains sub s \<longleftrightarrow> (\<exists>pre post. s = pre @ sub @ post)"
proof (induction s)
  case Nil
  then show ?case by auto
next
  case (Cons c cs)
  show ?case
  proof
    assume "str_contains sub (c # cs)"
    then consider "starts_with sub (c # cs)" | "str_contains sub cs" by auto
    then show "\<exists>pre post. c # cs = pre @ sub @ post"
    proof cases
      case 1
      then obtain post where "c # cs = sub @ post" by (auto simp: starts_with_iff)
      then have "c # cs = [] @ sub @ post" by simp
      then show ?thesis by blast
    next
      case 2
      with Cons.IH obtain pre post where "cs = pre @ sub @ post" by blast
      then have "c # cs = (c # pre) @ sub @ post" by simp
      then show ?thesis by blast
    qed
  next
    assume "\<exists>pre post. c # cs = pre @ sub @ post"
    then obtain pre post where eq: "c # cs = pre @ sub @ post" by blast
    show "str_contains sub (c # cs)"
    proof (cases pre)
      case Nil
      with eq have "starts_with sub (c # cs)" by (auto simp: starts_with_iff)
      then show ?thesis by simp
    next
      case (Cons p ps)
      with eq have "cs = ps @ sub @ post" by simp
      with Cons.IH have "str_contains sub cs" by blast
      then show ?thesis by simp
    qed
  qed
qed

lemma get_out_channels_params:
  "get_out_channels model st mem = Inr (chs, model', st') \<Longrightarrow>
   named_parameters model' = named_parameters model"
  by (auto simp: get_out_channels_def new_dict_def register_forward_hook_def Let_def
      split: sum.splits option.splits prod.splits)



lemma save_output_ok:
  "2 \<le> length (shape y) \<Longrightarrow>
   save_output a n y st = Inr (st\<lparr>dicts := (dicts st)(a := (dicts st a)(n \<mapsto> shape y ! 1))\<rparr>)"
  by (cases "shape y"; cases "tl (shape y)") (auto simp: save_output_def)

lemma save_output_D:
  "save_output a n y st = Inr st' \<Longrightarrow>
   2 \<le> length (shape y) \<and> st' = st\<lparr>dicts := (dicts st)(a := (dicts st a)(n \<mapsto> shape y ! 1))\<rparr>"
  by (cases "shape y"; cases "tl (shape y)") (auto simp: save_output_def)

lemma run_hooks_frame:
  "run_hooks hs y st = Inr st' \<Longrightarrow>
   next_free st' = next_free st \<and> (\<forall>a. a \<notin> hook_dict ` set hs \<longrightarrow> dicts st' a = dicts st a)"
proof (induction hs y st rule: run_hooks.induct)
  case (1 y st)
  then show ?case by simp
next
  case (2 out n hs y st)
  from "2.prems" obtain st1 where s1: "save_output out n y st = Inr st1"
    and r: "run_hooks hs y st1 = Inr st'"
    by (auto split: sum.splits)
  from save_output_D[OF s1] have "next_free st1 = next_free st"
    and "\<forall>a. a \<noteq> out \<longrightarrow> dicts st1 a = dicts st a" by auto
  with "2.IH"[OF s1 r] show ?case by auto
qed

lemma run_hooks_total:
  "2 \<le> length (shape y) \<Longrightarrow> \<exists>st'. run_hooks hs y st = Inr st'"
proof (induction hs y st rule: run_hooks.induct)
  case (1 y st)
  then show ?case by simp
next
  case (2 out n hs y st)
  from save_output_ok[OF "2.prems", of out n st] "2.IH" "2.prems" show ?case by simp
qed

lemma run_hooks_append:
  "run_hooks (hs @ hs') y st =
     (case run_hooks hs y st of Inl e \<Rightarrow> Inl e | Inr st1 \<Rightarrow> run_hooks hs' y st1)"
  by (induction hs y st rule: run_hooks.induct) (auto split: sum.splits)

lemma call_layer_observed:
  assumes "forward_hooks model s = hs @ [SaveOutput a n]"
    and "\<forall>h\<in>set hs. hook_dict h \<noteq> a"
    and "2 \<le> length (shape (layer model s x))"
  shows "\<exists>st'. call_layer model s x st = Inr (layer model s x, st') \<and>
           dicts st' a = (dicts st a)(n \<mapsto> shape (layer model s x) ! 1) \<and>
           next_free st' = next_free st"
proof -
  let ?y = "layer model s x"
  from run_hooks_total[OF assms(3)] obtain st1 where r1: "run_hooks hs ?y st = Inr st1" by blast
  from assms(2) have na: "a \<notin> hook_dict ` set hs" by blast
  from run_hooks_frame[OF r1] have f1: "next_free st1 = next_free st" by blast
  from run_hooks_frame[OF r1] na have d1: "dicts st1 a = dicts st a" by blast
  let ?st' = "st1\<lparr>dicts := (dicts st1)(a := (dicts st1 a)(n \<mapsto> shape ?y ! 1))\<rparr>"
  have "run_hooks (hs @ [SaveOutput a n]) ?y st = Inr ?st'"
    by (simp add: run_hooks_append r1 save_output_ok[OF assms(3)])
  then have "call_layer model s x st = Inr (?y, ?st')"
    by (simp add: call_layer_def assms(1) Let_def)
  moreover have "dicts ?st' a = (dicts st a)(n \<mapsto> shape ?y ! 1)" by (simp add: d1)
  moreover have "next_free ?st' = next_free st" by (simp add: f1)
  ultimately show ?thesis by blast
qed

lemma call_layer_D:
  "call_layer model s x st = Inr (y, st') \<Longrightarrow> y = layer model s x"
  by (auto simp: call_layer_def Let_def split: sum.splits)

lemma call_layer_total:
  "2 \<le> length (shape (layer model s x)) \<Longrightarrow>
   \<exists>st'. call_layer model s x st = Inr (layer model s x, st')"
  using run_hooks_total[of "layer model s x" "forward_hooks model s" st]
  by (auto simp: call_layer_def)


lemma registered_hooks:
  "forward_hooks
     (register_forward_hook Layer4 (SaveOutput a ''layer4'')
       (register_forward_hook Layer3 (SaveOutput a ''layer3'')
         (register_forward_hook Layer2 (SaveOutput a ''layer2'')
           (register_forward_hook Layer1 (SaveOutput a ''layer1'') model)))) s =
   forward_hooks model s @ [SaveOutput a (stage_name s)]"
  by (cases s) (simp_all add: register_forward_hook_def stage_name_def)

lemma registered_same:
  "layer (register_forward_hook s h model) = layer model"
  "stem (register_forward_hook s h model) = stem model"
  "head (register_forward_hook s h model) = head model"
  "named_parameters (register_forward_hook s h model) = named_parameters model"
  by (simp_all add: register_forward_hook_def)

lemma call_resnet_observed:
  assumes hooks: "\<And>s. forward_hooks m s = hs s @ [SaveOutput a (stage_name s)]"
    and fresh: "\<And>s. \<forall>h\<in>set (hs s). hook_dict h \<noteq> a"
    and dims: "\<And>s x. 2 \<le> length (shape (layer m s x))"
  shows "\<exists>st'. call_resnet m x st = Inr (head m (stage_outputs m x ! 3), st') \<and>
           dicts st' a =
             (dicts st a)(''layer1'' \<mapsto> shape (stage_outputs m x ! 0) ! 1,
                          ''layer2'' \<mapsto> shape (stage_outputs m x ! 1) ! 1,
                          ''layer3'' \<mapsto> shape (stage_outputs m x ! 2) ! 1,
                          ''layer4'' \<mapsto> shape (stage_outputs m x ! 3) ! 1) \<and>
           next_free st' = next_free st"
proof -
  let ?x1 = "layer m Layer1 (stem m x)"
  let ?x2 = "layer m Layer2 ?x1"
  let ?x3 = "layer m Layer3 ?x2"
  let ?x4 = "layer m Layer4 ?x3"
  from call_layer_observed[OF hooks fresh dims, of Layer1 "stem m x" st]
  obtain st1 where c1: "call_layer m Layer1 (stem m x) st = Inr (?x1, st1)"
    and d1: "dicts st1 a = (dicts st a)(''layer1'' \<mapsto> shape ?x1 ! 1)"
    and n1: "next_free st1 = next_free st"
    by (auto simp: stage_name_def)
  from call_layer_observed[OF hooks fresh dims, of Layer2 ?x1 st1]
  obtain st2 where c2: "call_layer m Layer2 ?x1 st1 = Inr (?x2, st2)"
    and d2: "dicts st2 a = (dicts st1 a)(''layer2'' \<mapsto> shape ?x2 ! 1)"
    and n2: "next_free st2 = next_free st1"
    by (auto simp: stage_name_def)
  from call_layer_observed[OF hooks fresh dims, of Layer3 ?x2 st2]
  obtain st3 where c3: "call_layer m Layer3 ?x2 st2 = Inr (?x3, st3)"
    and d3: "dicts st3 a = (dicts st2 a)(''layer3'' \<mapsto> shape ?x3 ! 1)"
    and n3: "next_free st3 = next_free st2"
    by (auto simp: stage_name_def)
  from call_layer_observed[OF hooks fresh dims, of Layer4 ?x3 st3]
  obtain st4 where c4: "call_layer m Layer4 ?x3 st3 = Inr (?x4, st4)"
    and d4: "dicts st4 a = (dicts st3 a)(''layer4'' \<mapsto> shape ?x4 ! 1)"
    and n4: "next_free st4 = next_free st3"
    by (auto simp: stage_name_def)
  have so: "stage_outputs m x = [?x1, ?x2, ?x3, ?x4]"
    by (simp add: stage_outputs_def Let_def)
  have "call_resnet m x st = Inr (head m (stage_outputs m x ! 3), st4)"
    by (simp add: call_resnet_def c1 c2 c3 c4 so)
  moreover have "dicts st4 a =
             (dicts st a)(''layer1'' \<mapsto> shape (stage_outputs m x ! 0) ! 1,
                          ''layer2'' \<mapsto> shape (stage_outputs m x ! 1) ! 1,
                          ''layer3'' \<mapsto> shape (stage_outputs m x ! 2) ! 1,
                          ''layer4'' \<mapsto> shape (stage_outputs m x ! 3) ! 1)"
    by (simp add: d4 d3 d2 d1 so)
  moreover have "next_free st4 = next_free st" by (simp add: n4 n3 n2 n1)
  ultimately show ?thesis by blast
qed

lemma stage_outputs_registered:
  "stage_outputs (register_forward_hook s h model) x = stage_outputs model x"
  by (simp add: stage_outputs_def registered_same)

lemma get_out_channels_result:
  assumes wf: "\<forall>s. \<forall>h\<in>set (forward_hooks model s). hook_dict h < next_free st"
    and dims: "\<forall>s x. 2 \<le> length (shape (layer model s x))"
  shows "\<exists>model' st'.
           get_out_channels model st mem =
             Inr (map (\<lambda>y. shape y ! 1) (stage_outputs model (torch_empty [1, 3, 128, 128] mem)),
                  model', st') \<and>
           (\<forall>s. forward_hooks model' s =
                  forward_hooks model s @ [SaveOutput (next_free st) (stage_name s)]) \<and>
           layer model' = layer model \<and> stem model' = stem model \<and> head model' = head model \<and>
           named_parameters model' = named_parameters model \<and>
           next_free st' = Suc (next_free st)"
proof -
  let ?a = "next_free st"
  let ?st0 = "st\<lparr>dicts := (dicts st)(?a := Map.empty), next_free := Suc ?a\<rparr>"
  let ?m4 = "register_forward_hook Layer4 (SaveOutput ?a ''layer4'')
       (register_forward_hook Layer3 (SaveOutput ?a ''layer3'')
         (register_forward_hook Layer2 (SaveOutput ?a ''layer2'')
           (register_forward_hook Layer1 (SaveOutput ?a ''layer1'') model)))"
  let ?x0 = "torch_empty [1, 3, 128, 128] mem"
  let ?outs = "stage_outputs model ?x0"
  have lay: "layer ?m4 = layer model" and st: "stem ?m4 = stem model"
    and hd: "head ?m4 = head model" and np: "named_parameters ?m4 = named_parameters model"
    by (simp_all add: registered_same)
  have so: "stage_outputs ?m4 x = stage_outputs model x" for x
    by (simp add: stage_outputs_registered)
  have hooks: "forward_hooks ?m4 s = forward_hooks model s @ [SaveOutput ?a (stage_name s)]" for s
    by (rule registered_hooks)
  have fresh: "\<forall>h\<in>set (forward_hooks model s). hook_dict h \<noteq> ?a" for s
    using wf by fastforce
  have d: "2 \<le> length (shape (layer ?m4 s x))" for s x
    using dims by (simp add: lay)
  from call_resnet_observed[OF hooks fresh d, of ?x0 ?st0]
  obtain st4 where call: "call_resnet ?m4 ?x0 ?st0 = Inr (head ?m4 (?outs ! 3), st4)"
    and d4: "dicts st4 ?a =
             (dicts ?st0 ?a)(''layer1'' \<mapsto> shape (?outs ! 0) ! 1,
                          ''layer2'' \<mapsto> shape (?outs ! 1) ! 1,
                          ''layer3'' \<mapsto> shape (?outs ! 2) ! 1,
                          ''layer4'' \<mapsto> shape (?outs ! 3) ! 1)"
    and n4: "next_free st4 = next_free ?st0"
    unfolding so by blast
  have l1: "dicts st4 ?a ''layer1'' = Some (shape (?outs ! 0) ! 1)"
    and l2: "dicts st4 ?a ''layer2'' = Some (shape (?outs ! 1) ! 1)"
    and l3: "dicts st4 ?a ''layer3'' = Some (shape (?outs ! 2) ! 1)"
    and l4: "dicts st4 ?a ''layer4'' = Some (shape (?outs ! 3) ! 1)"
    by (simp_all add: d4)
  have "get_out_channels model st mem =
          Inr ([shape (?outs ! 0) ! 1, shape (?outs ! 1) ! 1, shape (?outs ! 2) ! 1,
                shape (?outs ! 3) ! 1], ?m4, st4)"
    unfolding get_out_channels_def new_dict_def Let_def
    by (simp only: prod.case call sum.case l1 l2 l3 l4 option.case)
  moreover have "[shape (?outs ! 0) ! 1, shape (?outs ! 1) ! 1, shape (?outs ! 2) ! 1,
                shape (?outs ! 3) ! 1] = map (\<lambda>y. shape y ! 1) ?outs"
    by (simp add: stage_outputs_def Let_def)
  moreover have "next_free st4 = Suc ?a" by (simp add: n4)
  ultimately show ?thesis using hooks lay st hd np by force
qed


lemma get_out_channels_D:
  assumes "get_out_channels model st mem = Inr (chs, model', st')"
  shows "model' =
     register_forward_hook Layer4 (SaveOutput (next_free st) ''layer4'')
       (register_forward_hook Layer3 (SaveOutput (next_free st) ''layer3'')
         (register_forward_hook Layer2 (SaveOutput (next_free st) ''layer2'')
           (register_forward_hook Layer1 (SaveOutput (next_free st) ''layer1'') model)))"
  using assms
  by (auto simp: get_out_channels_def new_dict_def Let_def
      split: sum.splits option.splits prod.splits)

lemma call_resnet_D:
  assumes "call_resnet m x st = Inr (y, st')"
  shows "y = head m (stage_outputs m x ! 3)"
proof -
  from assms obtain x1 st1 x2 st2 x3 st3 x4 where
    c1: "call_layer m Layer1 (stem m x) st = Inr (x1, st1)"
    and c2: "call_layer m Layer2 x1 st1 = Inr (x2, st2)"
    and c3: "call_layer m Layer3 x2 st2 = Inr (x3, st3)"
    and c4: "call_layer m Layer4 x3 st3 = Inr (x4, st')"
    and y: "y = head m x4"
    by (auto simp: call_resnet_def split: sum.splits prod.splits)
  from call_layer_D[OF c1] call_layer_D[OF c2] call_layer_D[OF c3] call_layer_D[OF c4] y
  show ?thesis by (simp add: stage_outputs_def Let_def)
qed

lemma call_resnet_total:
  assumes dims: "\<forall>s z. 2 \<le> length (shape (layer m s z))"
  shows "\<exists>st'. call_resnet m x st = Inr (head m (stage_outputs m x ! 3), st')"
proof -
  let ?x1 = "layer m Layer1 (stem m x)"
  let ?x2 = "layer m Layer2 ?x1"
  let ?x3 = "layer m Layer3 ?x2"
  let ?x4 = "layer m Layer4 ?x3"
  from dims have d: "2 \<le> length (shape (layer m s z))" for s z by blast
  from call_layer_total[OF d] obtain st1 where
    c1: "call_layer m Layer1 (stem m x) st = Inr (?x1, st1)" by blast
  from call_layer_total[OF d] obtain st2 where
    c2: "call_layer m Layer2 ?x1 st1 = Inr (?x2, st2)" by blast
  from call_layer_total[OF d] obtain st3 where
    c3: "call_layer m Layer3 ?x2 st2 = Inr (?x3, st3)" by blast
  from call_layer_total[OF d] obtain st4 where
    c4: "call_layer m Layer4 ?x3 st3 = Inr (?x4, st4)" by blast
  have "call_resnet m x st = Inr (head m (stage_outputs m x ! 3), st4)"
    by (simp add: call_resnet_def c1 c2 c3 c4 stage_outputs_def Let_def)
  then show ?thesis by blast
qed

lemma call_layer_observed_D:
  assumes "forward_hooks model s = hs @ [SaveOutput a n]"
    and "\<forall>h\<in>set hs. hook_dict h \<noteq> a"
    and "call_layer model s x st = Inr (y, st')"
  shows "y = layer model s x \<and> dicts st' a = (dicts st a)(n \<mapsto> shape y ! 1) \<and>
         next_free st' = next_free st"
proof -
  from assms(3) have y: "y = layer model s x"
    and r: "run_hooks (hs @ [SaveOutput a n]) y st = Inr st'"
    by (auto simp: call_layer_def Let_def assms(1) split: sum.splits)
  from r obtain st1 where r1: "run_hooks hs y st = Inr st1"
    and s: "save_output a n y st1 = Inr st'"
    by (auto simp: run_hooks_append split: sum.splits)
  from assms(2) have na: "a \<notin> hook_dict ` set hs" by blast
  from run_hooks_frame[OF r1] have f1: "next_free st1 = next_free st" by blast
  from run_hooks_frame[OF r1] na have d1: "dicts st1 a = dicts st a" by blast
  from save_output_D[OF s]
  have st': "st' = st1\<lparr>dicts := (dicts st1)(a := (dicts st1 a)(n \<mapsto> shape y ! 1))\<rparr>" by blast
  have "dicts st' a = (dicts st a)(n \<mapsto> shape y ! 1)" unfolding st' by (simp add: d1)
  moreover have "next_free st' = next_free st" unfolding st' by (simp add: f1)
  ultimately show ?thesis using y by blast
qed

lemma call_resnet_observed_D:
  assumes hooks: "\<And>s. forward_hooks m s = hs s @ [SaveOutput a (stage_name s)]"
    and fresh: "\<And>s. \<forall>h\<in>set (hs s). hook_dict h \<noteq> a"
    and call: "call_resnet m x st = Inr (y, st')"
  shows "dicts st' a =
             (dicts st a)(''layer1'' \<mapsto> shape (stage_outputs m x ! 0) ! 1,
                          ''layer2'' \<mapsto> shape (stage_outputs m x ! 1) ! 1,
                          ''layer3'' \<mapsto> shape (stage_outputs m x ! 2) ! 1,
                          ''layer4'' \<mapsto> shape (stage_outputs m x ! 3) ! 1) \<and>
         next_free st' = next_free st"
proof -
  from call obtain x1 st1 x2 st2 x3 st3 x4 where
    c1: "call_layer m Layer1 (stem m x) st = Inr (x1, st1)"
    and c2: "call_layer m Layer2 x1 st1 = Inr (x2, st2)"
    and c3: "call_layer m Layer3 x2 st2 = Inr (x3, st3)"
    and c4: "call_layer m Layer4 x3 st3 = Inr (x4, st')"
    by (auto simp: call_resnet_def split: sum.splits prod.splits)
  note o1 = call_layer_observed_D[OF hooks fresh c1]
  note o2 = call_layer_observed_D[OF hooks fresh c2]
  note o3 = call_layer_observed_D[OF hooks fresh c3]
  note o4 = call_layer_observed_D[OF hooks fresh c4]
  from o1 o2 o3 o4 have so: "stage_outputs m x = [x1, x2, x3, x4]"
    by (simp add: stage_outputs_def Let_def)
  from o1 o2 o3 o4 have "dicts st' a =
             (dicts st a)(''layer1'' \<mapsto> shape x1 ! 1, ''layer2'' \<mapsto> shape x2 ! 1,
                          ''layer3'' \<mapsto> shape x3 ! 1, ''layer4'' \<mapsto> shape x4 ! 1)"
    by (simp add: stage_name_def)
  moreover from o1 o2 o3 o4 have "next_free st' = next_free st" by simp
  ultimately show ?thesis by (simp add: so)
qed

lemma tiny_hooks: "\<forall>s. \<forall>h\<in>set (forward_hooks (tiny_resnet p) s). hook_dict h < next_free st"
  by (simp add: tiny_resnet_def)

lemma tiny_dims: "\<forall>s x. 2 \<le> length (shape (layer (tiny_resnet p) s x))"
  by (simp add: tiny_resnet_def)

lemma tiny_channels:
  "map (\<lambda>y. shape y ! 1) (stage_outputs (tiny_resnet p) x) = [64, 128, 256, 512]"
  by (simp add: stage_outputs_def tiny_resnet_def stage_width_def Let_def)

lemma tiny_get_out_channels:
  "\<exists>model' st'.
     get_out_channels (tiny_resnet True) empty_store leftover_memory =
       Inr ([64, 128, 256, 512], model', st') \<and>
     (\<forall>s. forward_hooks model' s = [SaveOutput 0 (stage_name s)])"
proof -
  from get_out_channels_result[OF tiny_hooks[of True empty_store] tiny_dims[of True], of leftover_memory]
  obtain model' st' where
    g: "get_out_channels (tiny_resnet True) empty_store leftover_memory =
             Inr (map (\<lambda>y. shape y ! 1)
                   (stage_outputs (tiny_resnet True) (torch_empty [1, 3, 128, 128] leftover_memory)),
                  model', st')"
    and h: "\<forall>s. forward_hooks model' s =
                  forward_hooks (tiny_resnet True) s @
                    [SaveOutput (next_free empty_store) (stage_name s)]"
    by blast
  from g have "get_out_channels (tiny_resnet True) empty_store leftover_memory =
       Inr ([64, 128, 256, 512], model', st')"
    by (simp only: tiny_channels)
  moreover from h have "\<forall>s. forward_hooks model' s = [SaveOutput 0 (stage_name s)]"
    by (simp add: tiny_resnet_def empty_store_def)
  ultimately show ?thesis by blast
qed

lemma tiny_frozen:
  "freeze_layers (named_parameters (tiny_resnet p)) =
     [(''conv1.weight'', False), (''layer1.0.conv1.weight'', False),
      (''layer2.0.conv1.weight'', True), (''layer3.0.conv1.weight'', True),
      (''layer4.0.conv1.weight'', True), (''fc.weight'', False), (''fc.bias'', False)]"
  by (simp add: freeze_layers_def tiny_resnet_def)


lemma tiny_backbone:
  "\<exists>model' st'.
     resnet_fpn_backbone resnet_zoo ''resnet18'' True empty_store leftover_memory =
       Inr (\<lparr>body = model',
             return_layers = [(''layer1'', 0), (''layer2'', 1), (''layer3'', 2), (''layer4'', 3)],
             in_channels_list = [64, 128, 256, 512], out_channels = 256\<rparr>, st') \<and>
     named_parameters model' = freeze_layers (named_parameters (tiny_resnet True))"
proof -
  let ?b = "(tiny_resnet True)\<lparr>named_parameters :=
              freeze_layers (named_parameters (tiny_resnet True))\<rparr>"
  have hooks: "\<forall>s. \<forall>h\<in>set (forward_hooks ?b s). hook_dict h < next_free empty_store"
    by (simp add: tiny_resnet_def)
  have dims: "\<forall>s x. 2 \<le> length (shape (layer ?b s x))"
    by (simp add: tiny_resnet_def)
  have ch: "map (\<lambda>y. shape y ! 1) (stage_outputs ?b x) = [64, 128, 256, 512]" for x
    by (simp add: stage_outputs_def tiny_resnet_def stage_width_def Let_def)
  from get_out_channels_result[OF hooks dims, of leftover_memory]
  obtain model' st' where
    g: "get_out_channels ?b empty_store leftover_memory = Inr ([64, 128, 256, 512], model', st')"
    and np: "named_parameters model' = named_parameters ?b"
    unfolding ch by blast
  have "resnet_fpn_backbone resnet_zoo ''resnet18'' True empty_store leftover_memory =
       Inr (\<lparr>body = model',
             return_layers = [(''layer1'', 0), (''layer2'', 1), (''layer3'', 2), (''layer4'', 3)],
             in_channels_list = [64, 128, 256, 512], out_channels = 256\<rparr>, st')"
    by (simp add: resnet_fpn_backbone_def resnet_zoo_def Let_def g)
  with np show ?thesis by auto
qed

subsection \<open>Frozen parameters\<close>

text \<open>
  C4 as stated fails: after the construction of a backbone the stem parameter
  \<^verbatim>\<open>conv1.weight\<close> has gradient computation disabled.
\<close>

theorem stem_parameters_frozen:
  "\<not> isl (resnet_fpn_backbone resnet_zoo ''resnet18'' True empty_store leftover_memory) \<and>
   map_of (named_parameters (body (fst (projr
     (resnet_fpn_backbone resnet_zoo ''resnet18'' True empty_store leftover_memory)))))
     ''conv1.weight'' = Some False"
proof -
  from tiny_backbone obtain model' st' where
    b: "resnet_fpn_backbone resnet_zoo ''resnet18'' True empty_store leftover_memory =
       Inr (\<lparr>body = model',
             return_layers = [(''layer1'', 0), (''layer2'', 1), (''layer3'', 2), (''layer4'', 3)],
             in_channels_list = [64, 128, 256, 512], out_channels = 256\<rparr>, st')"
    and np: "named_parameters model' = freeze_layers (named_parameters (tiny_resnet True))"
    by blast
  show ?thesis by (simp add: b np tiny_frozen)
qed

text \<open>
  C4, amended. The construction keeps the parameters' names and order. A parameter is
  trainable afterwards exactly when it was trainable as the architecture's constructor
  returned it and its name contains \<^verbatim>\<open>layer2\<close>, \<^verbatim>\<open>layer3\<close> or \<^verbatim>\<open>layer4\<close>; every parameter
  whose name contains none of the three, those of \<^verbatim>\<open>layer1\<close>, of the stem and of the head
  alike, is frozen.
\<close>

theorem freeze_policy:
  assumes "resnet_fpn_backbone resnet_dict backbone_name pretrained st mem = Inr (fpn, st')"
    and "resnet_dict backbone_name = Some constructor"
  shows "map fst (named_parameters (body fpn)) =
           map fst (named_parameters (constructor pretrained)) \<and>
         (\<forall>i<length (named_parameters (constructor pretrained)).
            snd (named_parameters (body fpn) ! i) =
              (snd (named_parameters (constructor pretrained) ! i) \<and>
               (str_contains ''layer2'' (fst (named_parameters (constructor pretrained) ! i)) \<or>
                str_contains ''layer3'' (fst (named_parameters (constructor pretrained) ! i)) \<or>
                str_contains ''layer4'' (fst (named_parameters (constructor pretrained) ! i))))) \<and>
         (\<forall>(name, requires_grad)\<in>set (named_parameters (body fpn)).
            \<not> str_contains ''layer2'' name \<and> \<not> str_contains ''layer3'' name \<and>
            \<not> str_contains ''layer4'' name \<longrightarrow> \<not> requires_grad)"
proof -
  let ?ps = "named_parameters (constructor pretrained)"
  from assms have eq: "named_parameters (body fpn) = freeze_layers ?ps"
    by (auto simp: resnet_fpn_backbone_def Let_def split: sum.splits prod.splits
        dest!: get_out_channels_params)
  have a: "map fst (freeze_layers ps) = map fst ps" for ps
    by (induction ps) (auto simp: freeze_layers_def)
  have b: "snd (freeze_layers ps ! i) =
             (snd (ps ! i) \<and> (str_contains ''layer2'' (fst (ps ! i)) \<or>
               str_contains ''layer3'' (fst (ps ! i)) \<or> str_contains ''layer4'' (fst (ps ! i))))"
    if "i < length ps" for ps i
    using that by (cases "ps ! i") (auto simp: freeze_layers_def)
  have c: "\<forall>(name, requires_grad)\<in>set (freeze_layers ps).
            \<not> str_contains ''layer2'' name \<and> \<not> str_contains ''layer3'' name \<and>
            \<not> str_contains ''layer4'' name \<longrightarrow> \<not> requires_grad" for ps
    by (auto simp: freeze_layers_def split: if_splits)
  from a b c show ?thesis unfolding eq by blast
qed

theorem freeze_policy_witness:
  "\<exists>fpn st'.
     resnet_fpn_backbone resnet_zoo ''resnet18'' True empty_store leftover_memory =
       Inr (fpn, st') \<and>
     map fst (named_parameters (body fpn)) =
       [''conv1.weight'', ''layer1.0.conv1.weight'', ''layer2.0.conv1.weight'',
        ''layer3.0.conv1.weight'', ''layer4.0.conv1.weight'', ''fc.weight'', ''fc.bias''] \<and>
     snd (named_parameters (body fpn) ! 1) = False \<and>
     snd (named_parameters (body fpn) ! 2) = True"
proof -
  from tiny_backbone obtain fpn st' where
    b: "resnet_fpn_backbone resnet_zoo ''resnet18'' True empty_store leftover_memory =
          Inr (fpn, st')" by blast
  have z: "resnet_zoo ''resnet18'' = Some tiny_resnet" by (simp add: resnet_zoo_def)
  from freeze_policy[OF b z]
  have n: "map fst (named_parameters (body fpn)) = map fst (named_parameters (tiny_resnet True))"
    and f: "\<forall>i<length (named_parameters (tiny_resnet True)).
            snd (named_parameters (body fpn) ! i) =
              (snd (named_parameters (tiny_resnet True) ! i) \<and>
               (str_contains ''layer2'' (fst (named_parameters (tiny_resnet True) ! i)) \<or>
                str_contains ''layer3'' (fst (named_parameters (tiny_resnet True) ! i)) \<or>
                str_contains ''layer4'' (fst (named_parameters (tiny_resnet True) ! i))))"
    by blast+
  have p: "named_parameters (tiny_resnet True) =
        [(''conv1.weight'', True), (''layer1.0.conv1.weight'', True),
         (''layer2.0.conv1.weight'', True), (''layer3.0.conv1.weight'', True),
         (''layer4.0.conv1.weight'', True), (''fc.weight'', True), (''fc.bias'', True)]"
    by (simp add: tiny_resnet_def)
  from f have "snd (named_parameters (body fpn) ! 1) =
              (snd (named_parameters (tiny_resnet True) ! 1) \<and>
               (str_contains ''layer2'' (fst (named_parameters (tiny_resnet True) ! 1)) \<or>
                str_contains ''layer3'' (fst (named_parameters (tiny_resnet True) ! 1)) \<or>
                str_contains ''layer4'' (fst (named_parameters (tiny_resnet True) ! 1))))"
    by (simp add: p)
  then have f1: "snd (named_parameters (body fpn) ! 1) = False" by (simp add: p)
  from f have "snd (named_parameters (body fpn) ! 2) =
              (snd (named_parameters (tiny_resnet True) ! 2) \<and>
               (str_contains ''layer2'' (fst (named_parameters (tiny_resnet True) ! 2)) \<or>
                str_contains ''layer3'' (fst (named_parameters (tiny_resnet True) ! 2)) \<or>
                str_contains ''layer4'' (fst (named_parameters (tiny_resnet True) ! 2))))"
    by (simp add: p)
  then have f2: "snd (named_parameters (body fpn) ! 2) = True" by (simp add: p)
  from n have n': "map fst (named_parameters (body fpn)) =
       [''conv1.weight'', ''layer1.0.conv1.weight'', ''layer2.0.conv1.weight'',
        ''layer3.0.conv1.weight'', ''layer4.0.conv1.weight'', ''fc.weight'', ''fc.bias'']"
    by (simp add: p)
  from b n' f1 f2 show ?thesis
    by - (rule exI[of _ fpn], rule exI[of _ st'], intro conjI, assumption+)
qed


subsection \<open>The observers after the build\<close>

text \<open>
  C6 as stated fails: when \<^verbatim>\<open>get_out_channels\<close> has returned, its observer is still
  registered on \<^verbatim>\<open>layer1\<close>.
\<close>

theorem observers_not_discarded:
  "\<not> isl (get_out_channels (tiny_resnet True) empty_store leftover_memory) \<and>
   forward_hooks
     (fst (snd (projr (get_out_channels (tiny_resnet True) empty_store leftover_memory))))
     Layer1 = [SaveOutput 0 ''layer1'']"
proof -
  from tiny_get_out_channels obtain model' st' where
    g: "get_out_channels (tiny_resnet True) empty_store leftover_memory =
          Inr ([64, 128, 256, 512], model', st')"
    and h: "\<forall>s. forward_hooks model' s = [SaveOutput 0 (stage_name s)]" by blast
  from h have "forward_hooks model' Layer1 = [SaveOutput 0 ''layer1'']"
    by (simp add: stage_name_def)
  then show ?thesis by (simp add: g)
qed

text \<open>
  C6, amended. When \<^verbatim>\<open>get_out_channels\<close> has returned, each stage has its observer
  registered after the hooks it had before. The observers do not change what the network
  computes: a later forward call that returns gives the result of the network's own stem,
  stages and head, and it does return whenever the stages' outputs have a channel
  dimension. But every later forward call runs the observers again: when the hooks the
  network had before refer to dicts allocated earlier, a later call that returns has
  rewritten the four entries of the dict of the introspection call with the channel
  dimensions of its own stage outputs, and has allocated nothing.
\<close>

theorem observers_stay_registered:
  assumes "get_out_channels model st mem = Inr (chs, model', st')"
  shows "(\<forall>s. forward_hooks model' s =
               forward_hooks model s @ [SaveOutput (next_free st) (stage_name s)]) \<and>
         (\<forall>x st1 y st2. call_resnet model' x st1 = Inr (y, st2) \<longrightarrow>
               y = head model (stage_outputs model x ! 3)) \<and>
         ((\<forall>s z. 2 \<le> length (shape (layer model s z))) \<longrightarrow>
            (\<forall>x st1. \<exists>st2. call_resnet model' x st1 =
                               Inr (head model (stage_outputs model x ! 3), st2))) \<and>
         ((\<forall>s. \<forall>h\<in>set (forward_hooks model s). hook_dict h < next_free st) \<longrightarrow>
            (\<forall>x st1 y st2. call_resnet model' x st1 = Inr (y, st2) \<longrightarrow>
               dicts st2 (next_free st) =
                 (dicts st1 (next_free st))
                   (''layer1'' \<mapsto> shape (stage_outputs model x ! 0) ! 1,
                    ''layer2'' \<mapsto> shape (stage_outputs model x ! 1) ! 1,
                    ''layer3'' \<mapsto> shape (stage_outputs model x ! 2) ! 1,
                    ''layer4'' \<mapsto> shape (stage_outputs model x ! 3) ! 1) \<and>
               next_free st2 = next_free st1))"
proof -
  note m = get_out_channels_D[OF assms]
  have hooks: "forward_hooks model' s =
                 forward_hooks model s @ [SaveOutput (next_free st) (stage_name s)]" for s
    unfolding m by (rule registered_hooks)
  have lay: "layer model' = layer model" and hd: "head model' = head model"
    and so: "stage_outputs model' x = stage_outputs model x" for x
    unfolding m by (simp_all add: registered_same stage_outputs_registered)
  have a: "y = head model (stage_outputs model x ! 3)"
    if "call_resnet model' x st1 = Inr (y, st2)" for x st1 y st2
    using call_resnet_D[OF that] by (simp add: hd so)
  have b: "\<exists>st2. call_resnet model' x st1 = Inr (head model (stage_outputs model x ! 3), st2)"
    if "\<forall>s z. 2 \<le> length (shape (layer model s z))" for x st1
    using call_resnet_total[of model' x st1] that by (simp add: lay hd so)
  have c: "dicts st2 (next_free st) =
                 (dicts st1 (next_free st))
                   (''layer1'' \<mapsto> shape (stage_outputs model x ! 0) ! 1,
                    ''layer2'' \<mapsto> shape (stage_outputs model x ! 1) ! 1,
                    ''layer3'' \<mapsto> shape (stage_outputs model x ! 2) ! 1,
                    ''layer4'' \<mapsto> shape (stage_outputs model x ! 3) ! 1) \<and>
               next_free st2 = next_free st1"
    if wf: "\<forall>s. \<forall>h\<in>set (forward_hooks model s). hook_dict h < next_free st"
      and call: "call_resnet model' x st1 = Inr (y, st2)" for x st1 y st2
  proof -
    have fresh: "\<forall>h\<in>set (forward_hooks model s). hook_dict h \<noteq> next_free st" for s
      using wf by fastforce
    from call_resnet_observed_D[OF hooks fresh call] show ?thesis by (simp only: so)
  qed
  from hooks a b c show ?thesis by blast
qed

theorem observers_stay_registered_witness:
  "\<exists>model' st'.
     get_out_channels (tiny_resnet True) empty_store leftover_memory =
       Inr ([64, 128, 256, 512], model', st') \<and>
     forward_hooks model' Layer4 = [SaveOutput 0 ''layer4''] \<and>
     (\<exists>st2. call_resnet model' (example_batch 1) \<lparr>dicts = (\<lambda>_. Map.empty), next_free = 1\<rparr> =
              Inr (\<lparr>shape = [1, 1000], elems = elems (example_batch 1)\<rparr>, st2) \<and>
            dicts st2 0 =
              [''layer1'' \<mapsto> 64, ''layer2'' \<mapsto> 128, ''layer3'' \<mapsto> 256, ''layer4'' \<mapsto> 512] \<and>
            next_free st2 = 1)"
proof -
  let ?st1 = "\<lparr>dicts = (\<lambda>_. Map.empty), next_free = 1\<rparr> :: store"
  from tiny_get_out_channels obtain model' st' where
    g: "get_out_channels (tiny_resnet True) empty_store leftover_memory =
          Inr ([64, 128, 256, 512], model', st')" by blast
  from observers_stay_registered[OF g]
  have h: "\<forall>s. forward_hooks model' s =
               forward_hooks (tiny_resnet True) s @
                 [SaveOutput (next_free empty_store) (stage_name s)]"
    and t: "(\<forall>s z. 2 \<le> length (shape (layer (tiny_resnet True) s z))) \<longrightarrow>
            (\<forall>x st1. \<exists>st2. call_resnet model' x st1 =
               Inr (head (tiny_resnet True) (stage_outputs (tiny_resnet True) x ! 3), st2))"
    and d: "(\<forall>s. \<forall>h\<in>set (forward_hooks (tiny_resnet True) s).
               hook_dict h < next_free empty_store) \<longrightarrow>
            (\<forall>x st1 y st2. call_resnet model' x st1 = Inr (y, st2) \<longrightarrow>
               dicts st2 (next_free empty_store) =
                 (dicts st1 (next_free empty_store))
                   (''layer1'' \<mapsto> shape (stage_outputs (tiny_resnet True) x ! 0) ! 1,
                    ''layer2'' \<mapsto> shape (stage_outputs (tiny_resnet True) x ! 1) ! 1,
                    ''layer3'' \<mapsto> shape (stage_outputs (tiny_resnet True) x ! 2) ! 1,
                    ''layer4'' \<mapsto> shape (stage_outputs (tiny_resnet True) x ! 3) ! 1) \<and>
               next_free st2 = next_free st1)"
    by blast+
  from h have h4: "forward_hooks model' Layer4 = [SaveOutput 0 ''layer4'']"
    by (simp add: tiny_resnet_def empty_store_def stage_name_def)
  from t tiny_dims obtain st2 where
    c: "call_resnet model' (example_batch 1) ?st1 =
       Inr (head (tiny_resnet True) (stage_outputs (tiny_resnet True) (example_batch 1) ! 3), st2)"
    by blast
  from d tiny_hooks[of True empty_store] c
  have "dicts st2 (next_free empty_store) =
          (dicts ?st1 (next_free empty_store))
            (''layer1'' \<mapsto> shape (stage_outputs (tiny_resnet True) (example_batch 1) ! 0) ! 1,
             ''layer2'' \<mapsto> shape (stage_outputs (tiny_resnet True) (example_batch 1) ! 1) ! 1,
             ''layer3'' \<mapsto> shape (stage_outputs (tiny_resnet True) (example_batch 1) ! 2) ! 1,
             ''layer4'' \<mapsto> shape (stage_outputs (tiny_resnet True) (example_batch 1) ! 3) ! 1) \<and>
         next_free st2 = next_free ?st1"
    by blast
  then have d2: "dicts st2 0 =
              [''layer1'' \<mapsto> 64, ''layer2'' \<mapsto> 128, ''layer3'' \<mapsto> 256, ''layer4'' \<mapsto> 512]"
    and n2: "next_free st2 = 1"
    by (simp_all add: empty_store_def tiny_resnet_def stage_outputs_def stage_width_def Let_def)
  from c have c': "call_resnet model' (example_batch 1) ?st1 =
              Inr (\<lparr>shape = [1, 1000], elems = elems (example_batch 1)\<rparr>, st2)"
    by (simp add: tiny_resnet_def stage_outputs_def Let_def)
  from g h4 c' d2 n2 show ?thesis by blast
qed

subsection \<open>Channel introspection\<close>

text \<open>
  C8 as stated fails: the input of the introspection pass is not zero-valued when the
  memory that \<^verbatim>\<open>torch.empty\<close> allocates holds something else.
\<close>

theorem introspection_input_not_zero:
  "\<not> zero_valued (torch_empty [1, 3, 128, 128] leftover_memory)"
  by (simp add: zero_valued_def torch_empty_def leftover_memory_def) (rule exI[of _ 0], simp)


text \<open>
  C8, amended. The introspection pass runs on one tensor of shape \<open>[1, 3, 128, 128]\<close>
  whose values are those of the uninitialised memory. For a network whose hooks were
  made by earlier calls and whose stage outputs have a channel dimension, the call returns
  the channel dimensions of the outputs of \<^verbatim>\<open>layer1\<close> to \<^verbatim>\<open>layer4\<close> on that tensor, in this
  order.
\<close>

theorem introspection_records_channels:
  assumes "\<forall>s. \<forall>h\<in>set (forward_hooks model s). hook_dict h < next_free st"
    and "\<forall>s x. 2 \<le> length (shape (layer model s x))"
  shows "shape (torch_empty [1, 3, 128, 128] mem) = [1, 3, 128, 128] \<and>
         (\<exists>model' st'.
            get_out_channels model st mem =
              Inr (map (\<lambda>y. shape y ! 1)
                     (stage_outputs model (torch_empty [1, 3, 128, 128] mem)), model', st'))"
  using get_out_channels_result[OF assms, of mem] by (auto simp: torch_empty_def)

theorem introspection_records_channels_witness:
  "\<exists>model' st'. get_out_channels (tiny_resnet True) empty_store leftover_memory =
      Inr ([64, 128, 256, 512], model', st')"
  using introspection_records_channels[OF tiny_hooks[of True empty_store] tiny_dims[of True], of leftover_memory]
  by (simp only: tiny_channels)

section \<open>Properties of forward on BoxList objects\<close>

subsection \<open>Auxiliary facts\<close>

text \<open>
  Each loop only allocates, and the objects it returns hold what the loop on values
  computes.
\<close>

lemma add_bogus_boxes_refs_sound:
  assumes "add_bogus_boxes_refs ps hp = (r, hp')" and "\<forall>p\<in>set ps. snd p < length hp"
  shows "(\<exists>new. hp' = hp @ new) \<and>
         (case r of
            Inl e \<Rightarrow> add_bogus_boxes (map (\<lambda>p. (fst p, hp ! snd p)) ps) = Inl e
          | Inr refs \<Rightarrow>
              add_bogus_boxes (map (\<lambda>p. (fst p, hp ! snd p)) ps) = Inr (map (\<lambda>bl. hp' ! bl) refs) \<and>
              (\<forall>bl\<in>set refs. bl < length hp'))"
  using assms
proof (induction ps arbitrary: hp r hp')
  case Nil
  then show ?case by auto
next
  case (Cons p ps)
  obtain x y where p: "p = (x, y)" by (cases p)
  show ?case
  proof (cases "\<exists>h w. tl (shape x) = [h, w]")
    case False
    then have "add_bogus_boxes_refs (p # ps) hp = (Inl ValueError, hp)"
      unfolding p by (auto split: list.splits)
    moreover from False have "add_bogus_boxes (map (\<lambda>p. (fst p, hp ! snd p)) (p # ps)) = Inl ValueError"
      unfolding p by (auto split: list.splits)
    ultimately show ?thesis using Cons.prems(1) by auto
  next
    case True
    then obtain h w where hw: "tl (shape x) = [h, w]" by blast
    let ?bl = "BoxList (boxes (hp ! y) @ [(0, 0, real (f32_of_nat h), real (f32_of_nat w))])
                     (get_field_labels (hp ! y) @ [0]) None"
    let ?hp1 = "hp @ [?bl]"
    obtain r1 hp2 where rest: "add_bogus_boxes_refs ps ?hp1 = (r1, hp2)" by (cases "add_bogus_boxes_refs ps ?hp1")
    from Cons.prems(2) have v1: "\<forall>q\<in>set ps. snd q < length ?hp1" by auto
    from Cons.IH[OF rest v1] obtain new where new: "hp2 = ?hp1 @ new"
      and ih: "(case r1 of
            Inl e \<Rightarrow> add_bogus_boxes (map (\<lambda>p. (fst p, ?hp1 ! snd p)) ps) = Inl e
          | Inr refs \<Rightarrow>
              add_bogus_boxes (map (\<lambda>p. (fst p, ?hp1 ! snd p)) ps) = Inr (map (\<lambda>bl. hp2 ! bl) refs) \<and>
              (\<forall>bl\<in>set refs. bl < length hp2))" by blast
    have same: "map (\<lambda>p. (fst p, ?hp1 ! snd p)) ps = map (\<lambda>p. (fst p, hp ! snd p)) ps"
      using Cons.prems(2) by (auto simp: nth_append)
    have res: "add_bogus_boxes_refs (p # ps) hp =
                 (case r1 of Inl e \<Rightarrow> (Inl e, hp2) | Inr nt \<Rightarrow> (Inr (length hp # nt), hp2))"
      unfolding p by (simp add: hw new_boxlist_def rest split: sum.splits)
    have pure: "add_bogus_boxes (map (\<lambda>p. (fst p, hp ! snd p)) (p # ps)) =
                 (case add_bogus_boxes (map (\<lambda>p. (fst p, hp ! snd p)) ps) of
                    Inl e \<Rightarrow> Inl e | Inr nt \<Rightarrow> Inr (?bl # nt))"
      unfolding p by (simp add: hw Let_def)
    have hd: "hp2 ! length hp = ?bl" unfolding new by (simp add: nth_append)
    from Cons.prems(1) res have r: "r = (case r1 of Inl e \<Rightarrow> Inl e | Inr nt \<Rightarrow> Inr (length hp # nt))"
      and hp': "hp' = hp2" by (auto split: sum.splits)
    have ex: "\<exists>new. hp' = hp @ new" unfolding hp' new by simp
    show ?thesis
    proof (cases r1)
      case (Inl e)
      with ih same pure r ex show ?thesis by simp
    next
      case (Inr nt)
      from ih Inr have a: "add_bogus_boxes (map (\<lambda>p. (fst p, ?hp1 ! snd p)) ps) =
                             Inr (map (\<lambda>bl. hp2 ! bl) nt)"
        and b: "\<forall>bl\<in>set nt. bl < length hp2" by simp_all
      from a have a': "add_bogus_boxes (map (\<lambda>p. (fst p, hp ! snd p)) ps) =
                             Inr (map (\<lambda>bl. hp2 ! bl) nt)"
        unfolding same .
      have c: "add_bogus_boxes (map (\<lambda>p. (fst p, hp ! snd p)) (p # ps)) =
                 Inr (map (\<lambda>bl. hp2 ! bl) (length hp # nt))"
        unfolding pure a' by (simp add: hd)
      have d: "length hp < length hp2" unfolding new by simp
      from r Inr have r': "r = Inr (length hp # nt)" by simp
      from b d have e: "\<forall>bl\<in>set (length hp # nt). bl < length hp'" unfolding hp' by simp
      from c e ex show ?thesis unfolding r' hp' by simp
    qed
  qed
qed

lemma xyxy_refs_sound:
  assumes "xyxy_refs bls hp = (rs, hp')" and "\<forall>bl\<in>set bls. bl < length hp"
  shows "(\<exists>new. hp' = hp @ new) \<and> map (\<lambda>r. hp' ! r) rs = map (\<lambda>bl. xyxy (hp ! bl)) bls \<and>
         (\<forall>r\<in>set rs. r < length hp')"
  using assms
proof (induction bls arbitrary: hp rs hp')
  case Nil
  then show ?case by auto
next
  case (Cons bl bls)
  let ?hp1 = "hp @ [xyxy (hp ! bl)]"
  obtain rs1 hp2 where rest: "xyxy_refs bls ?hp1 = (rs1, hp2)" by (cases "xyxy_refs bls ?hp1")
  from Cons.prems(2) have v: "\<forall>b\<in>set bls. b < length ?hp1" by auto
  from Cons.IH[OF rest v] obtain new where new: "hp2 = ?hp1 @ new"
    and m: "map (\<lambda>r. hp2 ! r) rs1 = map (\<lambda>b. xyxy (?hp1 ! b)) bls"
    and b: "\<forall>r\<in>set rs1. r < length hp2" by blast
  have same: "map (\<lambda>b. xyxy (?hp1 ! b)) bls = map (\<lambda>b. xyxy (hp ! b)) bls"
    using Cons.prems(2) by (auto simp: nth_append)
  from Cons.prems(1) rest have rs: "rs = length hp # rs1" and hp': "hp' = hp2"
    by (simp_all add: new_boxlist_def)
  have hd: "hp2 ! length hp = xyxy (hp ! bl)" unfolding new by (simp add: nth_append)
  have d: "length hp < length hp2" unfolding new by simp
  have "\<exists>new. hp' = hp @ new" unfolding hp' new by simp
  moreover have "map (\<lambda>r. hp' ! r) rs = map (\<lambda>b. xyxy (hp ! b)) (bl # bls)"
    unfolding rs hp' using m same hd by simp
  moreover have "\<forall>r\<in>set rs. r < length hp'" unfolding rs hp' using b d by simp
  ultimately show ?case by blast
qed

lemma remove_bogus_refs_sound:
  assumes "remove_bogus_refs bls hp = (rs, hp')" and "\<forall>bl\<in>set bls. bl < length hp"
  shows "(\<exists>new. hp' = hp @ new) \<and>
         map (\<lambda>r. hp' ! r) rs = map (\<lambda>bl. remove_bogus (hp ! bl)) bls \<and>
         (\<forall>r\<in>set rs. r < length hp')"
  using assms
proof (induction bls arbitrary: hp rs hp')
  case Nil
  then show ?case by auto
next
  case (Cons bl bls)
  let ?hp1 = "hp @ [remove_bogus (hp ! bl)]"
  obtain rs1 hp2 where rest: "remove_bogus_refs bls ?hp1 = (rs1, hp2)"
    by (cases "remove_bogus_refs bls ?hp1")
  from Cons.prems(2) have v: "\<forall>b\<in>set bls. b < length ?hp1" by auto
  from Cons.IH[OF rest v] obtain new where new: "hp2 = ?hp1 @ new"
    and m: "map (\<lambda>r. hp2 ! r) rs1 = map (\<lambda>b. remove_bogus (?hp1 ! b)) bls"
    and b: "\<forall>r\<in>set rs1. r < length hp2" by blast
  have same: "map (\<lambda>b. remove_bogus (?hp1 ! b)) bls = map (\<lambda>b. remove_bogus (hp ! b)) bls"
    using Cons.prems(2) by (auto simp: nth_append)
  from Cons.prems(1) rest have rs: "rs = length hp # rs1" and hp': "hp' = hp2"
    by (simp_all add: new_boxlist_def)
  have hd: "hp2 ! length hp = remove_bogus (hp ! bl)" unfolding new by (simp add: nth_append)
  have d: "length hp < length hp2" unfolding new by simp
  have "\<exists>new. hp' = hp @ new" unfolding hp' new by simp
  moreover have "map (\<lambda>r. hp' ! r) rs = map (\<lambda>b. remove_bogus (hp ! b)) (bl # bls)"
    unfolding rs hp' using m same hd by simp
  moreover have "\<forall>r\<in>set rs. r < length hp'" unfolding rs hp' using b d by simp
  ultimately show ?case by blast
qed

lemma to_boxlist_refs_sound:
  assumes "to_boxlist_refs outs hp = (rs, hp')"
  shows "(\<exists>new. hp' = hp @ new) \<and> map (\<lambda>r. hp' ! r) rs = map to_boxlist outs \<and>
         (\<forall>r\<in>set rs. r < length hp')"
  using assms
proof (induction outs arbitrary: hp rs hp')
  case Nil
  then show ?case by auto
next
  case (Cons out outs)
  let ?b = "BoxList (d_boxes out) (d_labels out) (Some (d_scores out))"
  let ?hp2 = "hp @ [?b, yxyx ?b]"
  obtain rs1 hp3 where rest: "to_boxlist_refs outs ?hp2 = (rs1, hp3)"
    by (cases "to_boxlist_refs outs ?hp2")
  from Cons.IH[OF rest] obtain new where new: "hp3 = ?hp2 @ new"
    and m: "map (\<lambda>r. hp3 ! r) rs1 = map to_boxlist outs"
    and b: "\<forall>r\<in>set rs1. r < length hp3" by blast
  from Cons.prems rest have rs: "rs = Suc (length hp) # rs1" and hp': "hp' = hp3"
    by (simp_all add: new_boxlist_def nth_append)
  have hd: "hp3 ! Suc (length hp) = to_boxlist out"
    unfolding new by (simp add: nth_append to_boxlist_def)
  have d: "Suc (length hp) < length hp3" unfolding new by simp
  have "\<exists>new. hp' = hp @ new" unfolding hp' new by simp
  moreover have "map (\<lambda>r. hp' ! r) rs = map to_boxlist (out # outs)"
    unfolding rs hp' using m hd by simp
  moreover have "\<forall>r\<in>set rs. r < length hp'" unfolding rs hp' using b d by simp
  ultimately show ?case by blast
qed

lemma forward_refs_training:
  assumes run: "forward_refs model input (Some ts) hp = (res, hp')"
    and ne: "ts \<noteq> []"
    and valid: "\<forall>y\<in>set ts. y < length hp"
  shows "(\<exists>new. hp' = hp @ new) \<and>
         map_sum id (deref_result hp') res = forward model input (Some (map (\<lambda>y. hp ! y) ts))"
proof -
  from ne have tr: "truthy (Some ts)" by (cases ts) (simp_all add: truthy_def)
  from ne have tr': "truthy (Some (map (\<lambda>y. hp ! y) ts))" by (cases ts) (simp_all add: truthy_def)
  show ?thesis
  proof (cases "iter_tensor input")
    case (Inl e)
    have "forward_refs model input (Some ts) hp = (Inl e, hp)"
      using tr Inl by (simp add: forward_refs_def)
    then have "(res, hp') = (Inl e, hp)" unfolding run .
    then have "res = Inl e" and "hp' = hp" by simp_all
    with Inl tr' show ?thesis by (simp add: forward_def)
  next
    case (Inr xs)
    obtain r1 hp1 where ab: "add_bogus_boxes_refs (zip xs ts) hp = (r1, hp1)"
      by (cases "add_bogus_boxes_refs (zip xs ts) hp")
    from valid have v: "\<forall>p\<in>set (zip xs ts). snd p < length hp"
      by (auto dest: set_zip_rightD)
    have zm: "map (\<lambda>p. (fst p, hp ! snd p)) (zip xs ts) = zip xs (map (\<lambda>y. hp ! y) ts)"
      by (simp add: zip_map2 case_prod_beta)
    note s1 = add_bogus_boxes_refs_sound[OF ab v, unfolded zm]
    from s1 obtain new1 where new1: "hp1 = hp @ new1" by blast
    show ?thesis
    proof (cases r1)
      case (Inl e)
      with s1 have "add_bogus_boxes (zip xs (map (\<lambda>y. hp ! y) ts)) = Inl e" by simp
      moreover have "forward_refs model input (Some ts) hp = (Inl e, hp1)"
        using tr Inr ab Inl by (simp add: forward_refs_def)
      then have "(res, hp') = (Inl e, hp1)" unfolding run .
      then have "res = Inl e" and "hp' = hp1" by simp_all
      ultimately show ?thesis using tr' Inr new1 by (simp add: forward_def)
    next
      case r1: (Inr nt)
      with s1 have pure1: "add_bogus_boxes (zip xs (map (\<lambda>y. hp ! y) ts)) =
                             Inr (map (\<lambda>bl. hp1 ! bl) nt)"
        and v1: "\<forall>bl\<in>set nt. bl < length hp1" by simp_all
      obtain t1 hp2 where xr: "xyxy_refs nt hp1 = (t1, hp2)" by (cases "xyxy_refs nt hp1")
      from xyxy_refs_sound[OF xr v1] obtain new2 where new2: "hp2 = hp1 @ new2"
        and m2: "map (\<lambda>r. hp2 ! r) t1 = map (\<lambda>bl. xyxy (hp1 ! bl)) nt" by blast
      have args: "map (\<lambda>bl. to_det_target (hp2 ! bl)) t1 =
                    map to_det_target (map xyxy (map (\<lambda>bl. hp1 ! bl) nt))"
      proof -
        have "map (\<lambda>bl. to_det_target (hp2 ! bl)) t1 = map to_det_target (map (\<lambda>r. hp2 ! r) t1)"
          by simp
        also have "\<dots> = map to_det_target (map (\<lambda>bl. xyxy (hp1 ! bl)) nt)" by (simp only: m2)
        also have "\<dots> = map to_det_target (map xyxy (map (\<lambda>bl. hp1 ! bl) nt))" by simp
        finally show ?thesis .
      qed
      let ?dts = "map to_det_target (map xyxy (map (\<lambda>bl. hp1 ! bl) nt))"
      have pure: "forward model input (Some (map (\<lambda>y. hp ! y) ts)) =
                    (case model input (Some ?dts) of
                       Inl e \<Rightarrow> Inl e
                     | Inr (Detections _) \<Rightarrow> Inl AttributeError
                     | Inr (LossDict d) \<Rightarrow>
                         Inr (Losses (AList.update ''total_loss'' (sum_values d) d)))"
        using tr' Inr pure1 by (simp add: forward_def Let_def)
      have "forward_refs model input (Some ts) hp =
                    (case model input (Some ?dts) of
                       Inl e \<Rightarrow> (Inl e, hp2)
                     | Inr (Detections _) \<Rightarrow> (Inl AttributeError, hp2)
                     | Inr (LossDict d) \<Rightarrow>
                         (Inr (LossesR (AList.update ''total_loss'' (sum_values d) d)), hp2))"
        using tr Inr ab r1 xr by (simp add: forward_refs_def Let_def args)
      then have refs: "(res, hp') =
                    (case model input (Some ?dts) of
                       Inl e \<Rightarrow> (Inl e, hp2)
                     | Inr (Detections _) \<Rightarrow> (Inl AttributeError, hp2)
                     | Inr (LossDict d) \<Rightarrow>
                         (Inr (LossesR (AList.update ''total_loss'' (sum_values d) d)), hp2))"
        unfolding run .
      have ex: "\<exists>new. hp2 = hp @ new" unfolding new2 new1 by simp
      show ?thesis
      proof (cases "model input (Some ?dts)")
        case (Inl e)
        with refs pure ex show ?thesis by simp
      next
        case (Inr dr)
        with refs pure ex show ?thesis by (cases dr) (simp_all add: deref_result_def)
      qed
    qed
  qed
qed

lemma forward_refs_inference:
  assumes run: "forward_refs model input targets hp = (res, hp')"
    and nt: "\<not> truthy targets"
  shows "(\<exists>new. hp' = hp @ new) \<and>
         map_sum id (deref_result hp') res = forward model input None"
proof -
  have pure: "forward model input None =
        (case model input None of
           Inl e \<Rightarrow> Inl e
         | Inr (LossDict []) \<Rightarrow> Inr (Predictions [])
         | Inr (LossDict (_ # _)) \<Rightarrow> Inl TypeError
         | Inr (Detections out) \<Rightarrow> Inr (Predictions (map remove_bogus (map to_boxlist out))))"
    by (simp add: forward_def truthy_def Let_def split: sum.splits det_result.splits list.splits)
  show ?thesis
  proof (cases "model input None")
    case (Inl e)
    have "forward_refs model input targets hp = (Inl e, hp)"
      using nt Inl by (simp add: forward_refs_def)
    then have "(res, hp') = (Inl e, hp)" unfolding run .
    then have "res = Inl e" and "hp' = hp" by simp_all
    with Inl pure show ?thesis by simp
  next
    case (Inr dr)
    show ?thesis
    proof (cases dr)
      case (LossDict d)
      have "forward_refs model input targets hp =
              (case d of [] \<Rightarrow> (Inr (PredictionsR []), hp) | _ # _ \<Rightarrow> (Inl TypeError, hp))"
        using nt Inr LossDict by (simp add: forward_refs_def split: list.splits)
      then have "(res, hp') =
              (case d of [] \<Rightarrow> (Inr (PredictionsR []), hp) | _ # _ \<Rightarrow> (Inl TypeError, hp))"
        unfolding run .
      moreover from pure Inr LossDict have "forward model input None =
              (case d of [] \<Rightarrow> Inr (Predictions []) | _ # _ \<Rightarrow> Inl TypeError)"
        by (simp split: list.splits)
      ultimately show ?thesis by (cases d) (simp_all add: deref_result_def)
    next
      case (Detections out)
      obtain bls hp1 where tb: "to_boxlist_refs out hp = (bls, hp1)"
        by (cases "to_boxlist_refs out hp")
      from to_boxlist_refs_sound[OF tb] obtain new1 where new1: "hp1 = hp @ new1"
        and m1: "map (\<lambda>r. hp1 ! r) bls = map to_boxlist out"
        and v1: "\<forall>r\<in>set bls. r < length hp1" by blast
      obtain rs hp2 where rb: "remove_bogus_refs bls hp1 = (rs, hp2)"
        by (cases "remove_bogus_refs bls hp1")
      from remove_bogus_refs_sound[OF rb v1] obtain new2 where new2: "hp2 = hp1 @ new2"
        and m2: "map (\<lambda>r. hp2 ! r) rs = map (\<lambda>bl. remove_bogus (hp1 ! bl)) bls" by blast
      have "map (\<lambda>bl. remove_bogus (hp1 ! bl)) bls = map remove_bogus (map (\<lambda>r. hp1 ! r) bls)"
        by simp
      with m1 m2 have m: "map (\<lambda>r. hp2 ! r) rs = map remove_bogus (map to_boxlist out)"
        by simp
      have "forward_refs model input targets hp = (Inr (PredictionsR rs), hp2)"
        using nt Inr Detections tb rb by (simp add: forward_refs_def)
      then have "(res, hp') = (Inr (PredictionsR rs), hp2)" unfolding run .
      then have r: "res = Inr (PredictionsR rs)" and h: "hp' = hp2" by simp_all
      have "\<exists>new. hp' = hp @ new" unfolding h new2 new1 by simp
      moreover have "map_sum id (deref_result hp') res = forward model input None"
        unfolding r h pure Inr Detections by (simp add: deref_result_def m)
      ultimately show ?thesis by blast
    qed
  qed
qed

lemma forward_falsy: "\<not> truthy targets \<Longrightarrow> forward model input targets = forward model input None"
  by (simp add: forward_def truthy_def)

lemma upt_first: "[a..<a + Suc k] = a # [Suc a..<Suc a + k]"
  by (simp add: upt_conv_Cons del: upt_Suc)

lemma xyxy_refs_eq:
  "\<forall>bl\<in>set bls. bl < length hp \<Longrightarrow>
   xyxy_refs bls hp =
     ([length hp..<length hp + length bls], hp @ map (\<lambda>bl. xyxy (hp ! bl)) bls)"
proof (induction bls arbitrary: hp)
  case Nil
  then show ?case by simp
next
  case (Cons bl bls)
  let ?hp1 = "hp @ [xyxy (hp ! bl)]"
  from Cons.prems have v: "\<forall>b\<in>set bls. b < length ?hp1" by auto
  have same: "map (\<lambda>b. xyxy (?hp1 ! b)) bls = map (\<lambda>b. xyxy (hp ! b)) bls"
    using Cons.prems by (auto simp: nth_append)
  have "xyxy_refs (bl # bls) hp =
          (length hp # [length ?hp1..<length ?hp1 + length bls],
           ?hp1 @ map (\<lambda>b. xyxy (?hp1 ! b)) bls)"
    by (simp add: new_boxlist_def Cons.IH[OF v])
  also have "\<dots> = ([length hp..<length hp + length (bl # bls)],
                     hp @ map (\<lambda>b. xyxy (hp ! b)) (bl # bls))"
    unfolding same using upt_first[of "length hp" "length bls"] by simp
  finally show ?case .
qed

lemma add_bogus_boxes_refs_eq:
  assumes "\<forall>x\<in>set xs. tl (shape x) = [h, w]" and "\<forall>y\<in>set ts. y < length hp"
  shows "add_bogus_boxes_refs (zip xs ts) hp =
     (Inr [length hp..<length hp + min (length xs) (length ts)],
      hp @ map (\<lambda>y. BoxList (boxes (hp ! y) @ [(0, 0, real (f32_of_nat h), real (f32_of_nat w))])
                        (labels (hp ! y) @ [0]) None)
             (take (length xs) ts))"
  using assms
proof (induction xs arbitrary: ts hp)
  case Nil
  then show ?case by simp
next
  case (Cons x xs)
  show ?case
  proof (cases ts)
    case Nil
    then show ?thesis by simp
  next
    case ts: (Cons y ys)
    let ?f = "\<lambda>hp y. BoxList (boxes (hp ! y) @ [(0, 0, real (f32_of_nat h), real (f32_of_nat w))])
                        (labels (hp ! y) @ [0]) None"
    let ?hp1 = "hp @ [?f hp y]"
    from Cons.prems(1) have hw: "tl (shape x) = [h, w]" and sh: "\<forall>x\<in>set xs. tl (shape x) = [h, w]"
      by simp_all
    from Cons.prems(2) ts have v: "\<forall>y\<in>set ys. y < length ?hp1" by auto
    have same: "map (?f ?hp1) (take (length xs) ys) = map (?f hp) (take (length xs) ys)"
    proof (rule map_cong[OF refl])
      fix z assume "z \<in> set (take (length xs) ys)"
      then have "z \<in> set ys" by (rule in_set_takeD)
      with Cons.prems(2) ts have "z < length hp" by simp
      then show "?f ?hp1 z = ?f hp z" by (simp add: nth_append)
    qed
    have "add_bogus_boxes_refs (zip (x # xs) ts) hp =
            (Inr (length hp # [length ?hp1..<length ?hp1 + min (length xs) (length ys)]),
             ?hp1 @ map (?f ?hp1) (take (length xs) ys))"
      unfolding ts
      by (simp add: hw new_boxlist_def get_field_labels_def Cons.IH[OF sh v])
    also have "\<dots> = (Inr [length hp..<length hp + min (length (x # xs)) (length ts)],
                       hp @ map (?f hp) (take (length (x # xs)) ts))"
      unfolding same ts using upt_first[of "length hp" "min (length xs) (length ys)"] by simp
    finally show ?thesis .
  qed
qed

lemma forward_refs_heap:
  assumes ne: "ts \<noteq> []" and sh: "shape input = [n, c, h, w]"
    and valid: "\<forall>y\<in>set ts. y < length hp"
  shows "snd (forward_refs model input (Some ts) hp) =
           hp @ map (\<lambda>y. BoxList (boxes (hp ! y) @
                                   [(0, 0, real (f32_of_nat h), real (f32_of_nat w))])
                        (labels (hp ! y) @ [0]) None) (take n ts)
              @ map (\<lambda>y. xyxy (BoxList (boxes (hp ! y) @
                                   [(0, 0, real (f32_of_nat h), real (f32_of_nat w))])
                        (labels (hp ! y) @ [0]) None)) (take n ts)"
proof -
  let ?f = "\<lambda>y. BoxList (boxes (hp ! y) @ [(0, 0, real (f32_of_nat h), real (f32_of_nat w))])
                        (labels (hp ! y) @ [0]) None"
  from iter_tensor_shape[OF sh] obtain xs where
    xs: "iter_tensor input = Inr xs" "length xs = n" "\<forall>x\<in>set xs. shape x = [c, h, w]"
    by blast
  from xs(3) have hw: "\<forall>x\<in>set xs. tl (shape x) = [h, w]" by simp
  from ne have tr: "truthy (Some ts)" by (cases ts) (simp_all add: truthy_def)
  let ?k = "min n (length ts)"
  let ?hp1 = "hp @ map ?f (take n ts)"
  have ab: "add_bogus_boxes_refs (zip xs ts) hp = (Inr [length hp..<length hp + ?k], ?hp1)"
    using add_bogus_boxes_refs_eq[OF hw valid] by (simp add: xs(2))
  have v1: "\<forall>bl\<in>set [length hp..<length hp + ?k]. bl < length ?hp1" by auto
  have m: "map (\<lambda>bl. xyxy (?hp1 ! bl)) [length hp..<length hp + ?k] =
             map (\<lambda>y. xyxy (?f y)) (take n ts)"
  proof (rule nth_equalityI)
    show "length (map (\<lambda>bl. xyxy (?hp1 ! bl)) [length hp..<length hp + ?k]) =
            length (map (\<lambda>y. xyxy (?f y)) (take n ts))" by simp
  next
    fix i assume "i < length (map (\<lambda>bl. xyxy (?hp1 ! bl)) [length hp..<length hp + ?k])"
    then have i: "i < ?k" by simp
    then show "map (\<lambda>bl. xyxy (?hp1 ! bl)) [length hp..<length hp + ?k] ! i =
                 map (\<lambda>y. xyxy (?f y)) (take n ts) ! i"
      by (simp add: nth_append)
  qed
  have xr: "xyxy_refs [length hp..<length hp + ?k] ?hp1 =
              ([length ?hp1..<length ?hp1 + ?k], ?hp1 @ map (\<lambda>y. xyxy (?f y)) (take n ts))"
    using xyxy_refs_eq[OF v1] by (simp only: m length_upt add_diff_cancel_left')
  show ?thesis
    using tr xs(1) ab xr
    by (simp add: forward_refs_def Let_def split: sum.splits det_result.splits)
qed

subsection \<open>The targets of the caller\<close>

text \<open>
  C10. A call of forward with a list of targets, each a reference to an object of the
  heap, leaves every object that was there as it was: in particular the boxes, the labels
  and the scores of every target are what they were. The call returns what forward on
  the targets' values returns. In the training branch on a batch of shape \<open>[n, c, h, w]\<close>
  the heap after the call is the heap before it followed by the new objects: one
  augmented BoxList for each of the first \<open>n\<close> targets, then the conversion of each.
\<close>

theorem forward_leaves_targets_unchanged:
  assumes "forward_refs model input (Some ts) hp = (res, hp')"
    and "\<forall>y\<in>set ts. y < length hp"
  shows "take (length hp) hp' = hp \<and>
         (\<forall>y\<in>set ts. boxes (hp' ! y) = boxes (hp ! y) \<and> labels (hp' ! y) = labels (hp ! y) \<and>
                      scores (hp' ! y) = scores (hp ! y)) \<and>
         map_sum id (deref_result hp') res = forward model input (Some (map (\<lambda>y. hp ! y) ts)) \<and>
         (ts \<noteq> [] \<longrightarrow>
            (\<forall>n c h w. shape input = [n, c, h, w] \<longrightarrow>
               hp' = hp @ map (\<lambda>y. BoxList (boxes (hp ! y) @
                                      [(0, 0, real (f32_of_nat h), real (f32_of_nat w))])
                                    (labels (hp ! y) @ [0]) None) (take n ts)
                        @ map (\<lambda>y. xyxy (BoxList (boxes (hp ! y) @
                                      [(0, 0, real (f32_of_nat h), real (f32_of_nat w))])
                                    (labels (hp ! y) @ [0]) None)) (take n ts)))"
proof -
  have "(\<exists>new. hp' = hp @ new) \<and>
        map_sum id (deref_result hp') res = forward model input (Some (map (\<lambda>y. hp ! y) ts))"
  proof (cases "ts = []")
    case True
    then have nt: "\<not> truthy (Some ts)" by (simp add: truthy_def)
    from True have "forward model input (Some (map (\<lambda>y. hp ! y) ts)) = forward model input None"
      using forward_falsy[of "Some []" model input] by (simp add: truthy_def)
    with forward_refs_inference[OF assms(1) nt] show ?thesis by simp
  next
    case False
    from forward_refs_training[OF assms(1) False assms(2)] show ?thesis .
  qed
  then obtain new where new: "hp' = hp @ new"
    and r: "map_sum id (deref_result hp') res =
              forward model input (Some (map (\<lambda>y. hp ! y) ts))" by blast
  from new have a: "take (length hp) hp' = hp" by simp
  from new assms(2) have "\<forall>y\<in>set ts. hp' ! y = hp ! y" by (simp add: nth_append)
  then have b: "\<forall>y\<in>set ts. boxes (hp' ! y) = boxes (hp ! y) \<and>
                  labels (hp' ! y) = labels (hp ! y) \<and> scores (hp' ! y) = scores (hp ! y)"
    by simp
  have c: "hp' = hp @ map (\<lambda>y. BoxList (boxes (hp ! y) @
                                      [(0, 0, real (f32_of_nat h), real (f32_of_nat w))])
                                    (labels (hp ! y) @ [0]) None) (take n ts)
                        @ map (\<lambda>y. xyxy (BoxList (boxes (hp ! y) @
                                      [(0, 0, real (f32_of_nat h), real (f32_of_nat w))])
                                    (labels (hp ! y) @ [0]) None)) (take n ts)"
    if "ts \<noteq> []" and "shape input = [n, c, h, w]" for n c h w
    using forward_refs_heap[OF that assms(2), of model] by (simp add: assms(1))
  from a b r c show ?thesis by blast
qed

theorem forward_leaves_targets_unchanged_witness:
  "\<exists>res hp'.
     forward_refs strict_detector (example_batch 2) (Some [0, 1]) [one_box, no_boxes] = (res, hp') \<and>
     hp' = [one_box, no_boxes,
            \<lparr>boxes = [(1, 2, 3, 4), (0, 0, 4, 6)], labels = [7, 0], scores = None\<rparr>,
            \<lparr>boxes = [(0, 0, 4, 6)], labels = [0], scores = None\<rparr>,
            \<lparr>boxes = [(2, 1, 4, 3), (0, 0, 6, 4)], labels = [7, 0], scores = None\<rparr>,
            \<lparr>boxes = [(0, 0, 6, 4)], labels = [0], scores = None\<rparr>] \<and>
     take 2 hp' = [one_box, no_boxes] \<and>
     boxes (hp' ! 0) = [(1, 2, 3, 4)] \<and> labels (hp' ! 0) = [7] \<and>
     boxes (hp' ! 1) = [] \<and> labels (hp' ! 1) = [] \<and>
     map_sum id (deref_result hp') res =
       forward strict_detector (example_batch 2) (Some [one_box, no_boxes])"
proof -
  obtain res hp' where
    run: "forward_refs strict_detector (example_batch 2) (Some [0, 1]) [one_box, no_boxes] =
            (res, hp')"
    by (cases "forward_refs strict_detector (example_batch 2) (Some [0, 1]) [one_box, no_boxes]")
  let ?hp = "[one_box, no_boxes]"
  have valid: "\<forall>y\<in>set [0, 1]. y < length ?hp" by simp
  have sh: "shape (example_batch 2) = [2, 3, 4, 6]" by (simp add: example_batch_def)
  from forward_leaves_targets_unchanged[OF run valid]
  have t: "take (length ?hp) hp' = ?hp"
    and u: "\<forall>y\<in>set [0, 1]. boxes (hp' ! y) = boxes (?hp ! y) \<and>
              labels (hp' ! y) = labels (?hp ! y) \<and> scores (hp' ! y) = scores (?hp ! y)"
    and r: "map_sum id (deref_result hp') res =
              forward strict_detector (example_batch 2) (Some (map (\<lambda>y. ?hp ! y) [0, 1]))"
    and q: "[0, 1] \<noteq> ([] :: nat list) \<longrightarrow>
            (\<forall>n c h w. shape (example_batch 2) = [n, c, h, w] \<longrightarrow>
               hp' = ?hp @ map (\<lambda>y. BoxList (boxes (?hp ! y) @
                                      [(0, 0, real (f32_of_nat h), real (f32_of_nat w))])
                                    (labels (?hp ! y) @ [0]) None) (take n [0, 1])
                        @ map (\<lambda>y. xyxy (BoxList (boxes (?hp ! y) @
                                      [(0, 0, real (f32_of_nat h), real (f32_of_nat w))])
                                    (labels (?hp ! y) @ [0]) None)) (take n [0, 1]))"
    by blast+
  from q sh have "hp' = ?hp @ map (\<lambda>y. BoxList (boxes (?hp ! y) @
                                      [(0, 0, real (f32_of_nat 4), real (f32_of_nat 6))])
                                    (labels (?hp ! y) @ [0]) None) (take 2 [0, 1])
                        @ map (\<lambda>y. xyxy (BoxList (boxes (?hp ! y) @
                                      [(0, 0, real (f32_of_nat 4), real (f32_of_nat 6))])
                                    (labels (?hp ! y) @ [0]) None)) (take 2 [0, 1])"
    by blast
  then have h: "hp' = [one_box, no_boxes,
            \<lparr>boxes = [(1, 2, 3, 4), (0, 0, 4, 6)], labels = [7, 0], scores = None\<rparr>,
            \<lparr>boxes = [(0, 0, 4, 6)], labels = [0], scores = None\<rparr>,
            \<lparr>boxes = [(2, 1, 4, 3), (0, 0, 6, 4)], labels = [7, 0], scores = None\<rparr>,
            \<lparr>boxes = [(0, 0, 6, 4)], labels = [0], scores = None\<rparr>]"
    by (simp add: one_box_def no_boxes_def BoxList_def xyxy_def swap_order_def f32_of_nat_exact)
  from t have t': "take 2 hp' = ?hp" by (simp add: numeral_2_eq_2)
  from u have u0: "boxes (hp' ! 0) = [(1, 2, 3, 4)]" "labels (hp' ! 0) = [7]"
    and u1: "boxes (hp' ! 1) = []" "labels (hp' ! 1) = []"
    by (simp_all add: one_box_def no_boxes_def BoxList_def)
  from r have r': "map_sum id (deref_result hp') res =
              forward strict_detector (example_batch 2) (Some [one_box, no_boxes])" by simp
  from run h t' u0 u1 r' show ?thesis by blast
qed

end
